theory Spec2Isabelle
  imports Complex_Main
begin

section \<open>Python values used by the analyzer\<close>

text \<open>
  Text is a list of 8-bit characters, read as the code points 0..255 of a Python
  \<^verbatim>\<open>str\<close>. Every raise of the source is a value of \<open>py_error\<close>; a function that
  can raise returns \<open>py_error + 'a\<close>.
\<close>

datatype py_error =
  ValueError | TypeError | IndexError | OverflowError | ZeroDivisionError | CommandExecutionError

definition err_bind :: "py_error + 'a \<Rightarrow> ('a \<Rightarrow> py_error + 'b) \<Rightarrow> py_error + 'b" where
  "err_bind r f = (case r of Inl e \<Rightarrow> Inl e | Inr v \<Rightarrow> f v)"

text \<open>\<^verbatim>\<open>str.isspace\<close> on one character below code point 256: TAB..CR, FS..US, space, NEL, NBSP.\<close>

definition py_isspace :: "char \<Rightarrow> bool" where
  "py_isspace c = (let n = (of_char c :: nat) in
     (9 \<le> n \<and> n \<le> 13) \<or> (28 \<le> n \<and> n \<le> 32) \<or> n = 133 \<or> n = 160)"

text \<open>\<^verbatim>\<open>s.strip()\<close>\<close>

definition py_strip :: "string \<Rightarrow> string" where
  "py_strip s = rev (dropWhile py_isspace (rev (dropWhile py_isspace s)))"

text \<open>
  Splitting at every character that satisfies \<open>p\<close>: the fields between separators,
  empty fields kept. The result is never empty, so \<open>hd\<close> and \<open>tl\<close> read a cons cell.
\<close>

primrec split_where :: "(char \<Rightarrow> bool) \<Rightarrow> string \<Rightarrow> string list" where
  "split_where p [] = [[]]"
| "split_where p (c # cs) =
     (let r = split_where p cs in if p c then [] # r else (c # hd r) # tl r)"

text \<open>\<^verbatim>\<open>s.split(sep)\<close> for a one-character separator.\<close>

definition split_on :: "char \<Rightarrow> string \<Rightarrow> string list" where
  "split_on sep s = split_where (\<lambda>c. c = sep) s"

text \<open>\<^verbatim>\<open>s.split()\<close>: the maximal runs of characters that are not white space.\<close>

definition py_split :: "string \<Rightarrow> string list" where
  "py_split s = filter (\<lambda>w. w \<noteq> []) (split_where py_isspace s)"

text \<open>\<^verbatim>\<open>s.split(sep, 1)\<close>: cut at the first separator only.\<close>

definition split_once :: "char \<Rightarrow> string \<Rightarrow> string list" where
  "split_once sep s =
     (case dropWhile (\<lambda>c. c \<noteq> sep) s of
        [] \<Rightarrow> [s]
      | _ # r \<Rightarrow> [takeWhile (\<lambda>c. c \<noteq> sep) s, r])"

text \<open>\<^verbatim>\<open>xs[i]\<close> for \<open>i \<ge> 0\<close>.\<close>

definition py_index :: "'a list \<Rightarrow> nat \<Rightarrow> py_error + 'a" where
  "py_index xs i = (if i < length xs then Inr (xs ! i) else Inl IndexError)"

text \<open>\<^verbatim>\<open>s.startswith(p)\<close> and \<^verbatim>\<open>sub in s\<close>.\<close>

definition startswith :: "string \<Rightarrow> string \<Rightarrow> bool" where
  "startswith p s = (take (length p) s = p)"

primrec contains :: "string \<Rightarrow> string \<Rightarrow> bool" where
  "contains sub [] = (sub = [])"
| "contains sub (c # cs) = (startswith sub (c # cs) \<or> contains sub cs)"

text \<open>\<^verbatim>\<open>sep.join(xs)\<close>\<close>

fun py_join :: "string \<Rightarrow> string list \<Rightarrow> string" where
  "py_join sep [] = []"
| "py_join sep [x] = x"
| "py_join sep (x # y # ys) = x @ sep @ py_join sep (y # ys)"

text \<open>
  \<^verbatim>\<open>int(s, base)\<close> for base 10 and 16: white space stripped, an optional sign, for
  base 16 an optional \<^verbatim>\<open>0x\<close> prefix (one underscore may follow it), then digits with
  single underscores between them. Anything else is a \<open>ValueError\<close>. In base 10 a
  string of more than \<^verbatim>\<open>sys.get_int_max_str_digits()\<close> digits is a \<open>ValueError\<close> too;
  the limit is the interpreter's default, 4300.
\<close>

definition int_max_str_digits :: nat where
  "int_max_str_digits = 4300"

definition digit_of :: "char \<Rightarrow> nat option" where
  "digit_of c = (let n = (of_char c :: nat) in
     if 48 \<le> n \<and> n \<le> 57 then Some (n - 48)
     else if 97 \<le> n \<and> n \<le> 122 then Some (n - 87)
     else if 65 \<le> n \<and> n \<le> 90 then Some (n - 55)
     else None)"

fun py_digits :: "nat \<Rightarrow> bool \<Rightarrow> nat \<Rightarrow> string \<Rightarrow> nat option" where
  "py_digits b after_digit acc [] = (if after_digit then Some acc else None)"
| "py_digits b after_digit acc (c # cs) =
     (if c = CHR ''_'' then (if after_digit then py_digits b False acc cs else None)
      else (case digit_of c of
              None \<Rightarrow> None
            | Some d \<Rightarrow> if d < b then py_digits b True (acc * b + d) cs else None))"

definition py_int :: "nat \<Rightarrow> string \<Rightarrow> py_error + int" where
  "py_int b s =
     (let t = py_strip s;
          neg = startswith ''-'' t;
          u = (if startswith ''-'' t \<or> startswith ''+'' t then tl t else t);
          v = (if b = 16 \<and> (startswith ''0x'' u \<or> startswith ''0X'' u)
               then (let w = drop 2 u in if startswith ''_'' w then tl w else w)
               else u)
      in if b = 10 \<and> length (filter (\<lambda>c. c \<noteq> CHR ''_'') v) > int_max_str_digits
         then Inl ValueError
         else (case py_digits b False 0 v of
                 None \<Rightarrow> Inl ValueError
               | Some n \<Rightarrow> Inr (if neg then - int n else int n)))"

text \<open>\<^verbatim>\<open>str(n)\<close> for an integer: decimal digits, a minus sign for a negative one.\<close>

fun str_nat :: "nat \<Rightarrow> string" where
  "str_nat n = (if n < 10 then [char_of (48 + n)] else str_nat (n div 10) @ [char_of (48 + n mod 10)])"

definition py_str :: "int \<Rightarrow> string" where
  "py_str i = (if i < 0 then CHR ''-'' # str_nat (nat (- i)) else str_nat (nat i))"

text \<open>\<^verbatim>\<open>list(dict.fromkeys(xs))\<close>: keys are inserted in order, a key already present stays where it is.\<close>

definition fromkeys :: "'a list \<Rightarrow> 'a list" where
  "fromkeys xs = foldl (\<lambda>keys x. if x \<in> set keys then keys else keys @ [x]) [] xs"

section \<open>Regular expressions as the parsers use them\<close>

text \<open>
  Every pattern of the source is a sequence of single-character items (a literal or a
  class), each taken once or under a greedy \<^verbatim>\<open>+\<close> or \<^verbatim>\<open>*\<close>, with
  capture groups that do not nest. \<open>match_at\<close> is the backtracking matcher of
  \<^verbatim>\<open>re\<close> on such a pattern: a repetition (\<open>greedy\<close>) takes as many characters as
  it can and gives them back one at a time while the rest of the pattern fails. A match
  is the list of the suffixes of the text at each group boundary, and the text left
  after it.
\<close>

datatype quant = Once | Plus | Star

datatype rx = Atom "char \<Rightarrow> bool" quant | Open | Close

type_synonym regex = "rx list"

type_synonym rx_match = "string list \<times> string"

fun match_at :: "regex \<Rightarrow> string \<Rightarrow> rx_match option"
and greedy :: "(char \<Rightarrow> bool) \<Rightarrow> regex \<Rightarrow> string \<Rightarrow> rx_match option" where
  "match_at [] s = Some ([], s)"
| "match_at (Atom p Once # r) [] = None"
| "match_at (Atom p Once # r) (c # cs) = (if p c then match_at r cs else None)"
| "match_at (Atom p Plus # r) [] = None"
| "match_at (Atom p Plus # r) (c # cs) = (if p c then greedy p r cs else None)"
| "match_at (Atom p Star # r) s = greedy p r s"
| "match_at (Open # r) s =
     (case match_at r s of None \<Rightarrow> None | Some (ms, rest) \<Rightarrow> Some (s # ms, rest))"
| "match_at (Close # r) s =
     (case match_at r s of None \<Rightarrow> None | Some (ms, rest) \<Rightarrow> Some (s # ms, rest))"
| "greedy p r [] = match_at r []"
| "greedy p r (c # cs) =
     (if p c then (case greedy p r cs of Some m \<Rightarrow> Some m | None \<Rightarrow> match_at r (c # cs))
      else match_at r (c # cs))"

text \<open>The captured groups of a match, in order: the text between an opening and a closing boundary.\<close>

fun groups :: "string list \<Rightarrow> string list" where
  "groups (a # b # ms) = take (length a - length b) a # groups ms"
| "groups _ = []"

text \<open>\<^verbatim>\<open>re.search\<close>: the match at the leftmost position that has one; its groups.\<close>

primrec re_search :: "regex \<Rightarrow> string \<Rightarrow> string list option" where
  "re_search r [] = (case match_at r [] of None \<Rightarrow> None | Some (ms, rest) \<Rightarrow> Some (groups ms))"
| "re_search r (c # cs) =
     (case match_at r (c # cs) of
        None \<Rightarrow> re_search r cs
      | Some (ms, rest) \<Rightarrow> Some (groups ms))"

text \<open>
  \<^verbatim>\<open>re.finditer\<close> / \<^verbatim>\<open>re.findall\<close>: the matches from left to right, none overlapping.
  After a match the scan resumes where it ended: \<open>n\<close> counts the characters of the
  last match still to be passed over.
\<close>

fun re_scan :: "regex \<Rightarrow> nat \<Rightarrow> string \<Rightarrow> string list list" where
  "re_scan r n [] =
     (if n = 0 then (case match_at r [] of None \<Rightarrow> [] | Some (ms, rest) \<Rightarrow> [groups ms]) else [])"
| "re_scan r (Suc n) (c # cs) = re_scan r n cs"
| "re_scan r 0 (c # cs) =
     (case match_at r (c # cs) of
        None \<Rightarrow> re_scan r 0 cs
      | Some (ms, rest) \<Rightarrow> groups ms # re_scan r (length (c # cs) - length rest - 1) cs)"

definition re_findall :: "regex \<Rightarrow> string \<Rightarrow> string list list" where
  "re_findall r s = re_scan r 0 s"

text \<open>The character classes of the patterns, on code points below 256.\<close>

definition re_digit :: "char \<Rightarrow> bool" where
  "re_digit c = (let n = (of_char c :: nat) in 48 \<le> n \<and> n \<le> 57)"

definition re_word :: "char \<Rightarrow> bool" where
  "re_word c = (let n = (of_char c :: nat) in
     (48 \<le> n \<and> n \<le> 57) \<or> (65 \<le> n \<and> n \<le> 90) \<or> (97 \<le> n \<and> n \<le> 122) \<or> n = 95
     \<or> n = 170 \<or> n = 178 \<or> n = 179 \<or> n = 181 \<or> n = 185 \<or> n = 186
     \<or> (188 \<le> n \<and> n \<le> 190) \<or> (192 \<le> n \<and> n \<le> 214) \<or> (216 \<le> n \<and> n \<le> 246) \<or> 248 \<le> n)"

text \<open>\<^verbatim>\<open>[0-9a-f:]\<close>, and the same class under \<^verbatim>\<open>re.IGNORECASE\<close>.\<close>

definition re_hexcolon :: "char \<Rightarrow> bool" where
  "re_hexcolon c = (let n = (of_char c :: nat) in
     (48 \<le> n \<and> n \<le> 57) \<or> (97 \<le> n \<and> n \<le> 102) \<or> c = CHR '':'')"

definition re_hexcolon_i :: "char \<Rightarrow> bool" where
  "re_hexcolon_i c = (let n = (of_char c :: nat) in
     (48 \<le> n \<and> n \<le> 57) \<or> (97 \<le> n \<and> n \<le> 102) \<or> (65 \<le> n \<and> n \<le> 70) \<or> c = CHR '':'')"

text \<open>\<^verbatim>\<open>[0-9a-f]\<close> and \<^verbatim>\<open>[0-9a-fA-F]\<close>\<close>

definition re_hex :: "char \<Rightarrow> bool" where
  "re_hex c = (let n = (of_char c :: nat) in (48 \<le> n \<and> n \<le> 57) \<or> (97 \<le> n \<and> n \<le> 102))"

definition re_hex_i :: "char \<Rightarrow> bool" where
  "re_hex_i c = (let n = (of_char c :: nat) in
     (48 \<le> n \<and> n \<le> 57) \<or> (97 \<le> n \<and> n \<le> 102) \<or> (65 \<le> n \<and> n \<le> 70))"

text \<open>A literal character, as written and under \<^verbatim>\<open>re.IGNORECASE\<close> (ASCII letters).\<close>

definition ascii_lower :: "char \<Rightarrow> char" where
  "ascii_lower c = (let n = (of_char c :: nat) in if 65 \<le> n \<and> n \<le> 90 then char_of (n + 32) else c)"

definition lit :: "string \<Rightarrow> regex" where
  "lit s = map (\<lambda>c. Atom (\<lambda>x. x = c) Once) s"

definition lit_i :: "string \<Rightarrow> regex" where
  "lit_i s = map (\<lambda>c. Atom (\<lambda>x. ascii_lower x = ascii_lower c) Once) s"

text \<open>\<^verbatim>\<open>\d+\.\d+\.\d+\.\d+\<close>\<close>

definition dotted_quad :: regex where
  "dotted_quad =
     [Atom re_digit Plus] @ lit ''.'' @ [Atom re_digit Plus] @ lit ''.'' @
     [Atom re_digit Plus] @ lit ''.'' @ [Atom re_digit Plus]"

section \<open>parsers/netstat.py\<close>

text \<open>
  Modelled from the spec: the record type \<^verbatim>\<open>NetworkMetrics\<close> is declared in
  \<^verbatim>\<open>models.py\<close>, which is missing. Its fields are the keyword arguments of the
  constructor call in the parser; the spec gives them as integer counters.
\<close>

record network_metrics =
  interface :: string
  packets_in :: int
  errors_in :: int
  bytes_in :: int
  packets_out :: int
  errors_out :: int
  bytes_out :: int
  collisions :: int

text \<open>
  The body of the \<^verbatim>\<open>try\<close>: the keyword arguments are evaluated in order, the first
  token that \<^verbatim>\<open>int\<close> rejects raises. It runs only when there are at least 10 tokens.
\<close>

definition netstat_row :: "string \<Rightarrow> string list \<Rightarrow> py_error + network_metrics" where
  "netstat_row interface_name parts =
     err_bind (err_bind (py_index parts 4) (py_int 10)) (\<lambda>p_in.
     err_bind (err_bind (py_index parts 5) (py_int 10)) (\<lambda>e_in.
     err_bind (err_bind (py_index parts 6) (py_int 10)) (\<lambda>b_in.
     err_bind (err_bind (py_index parts 7) (py_int 10)) (\<lambda>p_out.
     err_bind (err_bind (py_index parts 8) (py_int 10)) (\<lambda>e_out.
     err_bind (err_bind (py_index parts 9) (py_int 10)) (\<lambda>b_out.
     err_bind (if length parts > 10 then err_bind (py_index parts 10) (py_int 10) else Inr 0) (\<lambda>coll.
     Inr \<lparr>interface = interface_name, packets_in = p_in, errors_in = e_in, bytes_in = b_in,
          packets_out = p_out, errors_out = e_out, bytes_out = b_out, collisions = coll\<rparr>)))))))"

text \<open>The \<^verbatim>\<open>for\<close> loop: \<^verbatim>\<open>except (ValueError, IndexError): pass\<close> goes on to the next line.\<close>

fun netstat_loop :: "string \<Rightarrow> string list \<Rightarrow> py_error + network_metrics option" where
  "netstat_loop interface_name [] = Inr None"
| "netstat_loop interface_name (line # rest) =
     (if startswith interface_name line then
        (let parts = py_split line in
         if length parts \<ge> 10 then
           (case netstat_row interface_name parts of
              Inr m \<Rightarrow> Inr (Some m)
            | Inl e \<Rightarrow> if e = ValueError \<or> e = IndexError
                       then netstat_loop interface_name rest else Inl e)
         else netstat_loop interface_name rest)
      else netstat_loop interface_name rest)"

definition parse_netstat_interface :: "string \<Rightarrow> string \<Rightarrow> py_error + network_metrics option" where
  "parse_netstat_interface output interface_name =
     netstat_loop interface_name (split_on CHR 0x0A (py_strip output))"

section \<open>Floating-point arithmetic of the interpreter\<close>

text \<open>
  A Python \<^verbatim>\<open>float\<close> is an IEEE 754 binary64 number. A finite one is the real number
  it denotes. \<open>round53\<close> is the rounding every operation ends with: to the nearest
  number with a 53-bit significand, a tie to the even one. The exponent of \<open>x\<close> is the
  \<open>e\<close> with \<open>2\<^sup>e \<le> \<bar>x\<bar> < 2\<^sup>e\<^sup>+\<^sup>1\<close>, found by halving or doubling, and not below
  \<open>-1022\<close> (the subnormal range) nor above \<open>1023\<close>; the result is a multiple of the quantum
  \<open>2\<^sup>e\<^sup>-\<^sup>5\<^sup>2\<close>. An exact result of magnitude \<open>2\<^sup>1\<^sup>0\<^sup>2\<^sup>4 - 2\<^sup>9\<^sup>7\<^sup>0\<close> or more rounds to
  \<open>2\<^sup>1\<^sup>0\<^sup>2\<^sup>4\<close>, which is no float: the operation overflows.
\<close>

definition round_even :: "real \<Rightarrow> int" where
  "round_even x =
     (let f = \<lfloor>x\<rfloor>; d = x - of_int f in
      if d < 1 / 2 then f else if d > 1 / 2 then f + 1 else if even f then f else f + 1)"

fun exponent_up :: "nat \<Rightarrow> real \<Rightarrow> int" where
  "exponent_up 0 x = 0"
| "exponent_up (Suc n) x = (if 2 \<le> x then exponent_up n (x / 2) + 1 else 0)"

fun exponent_down :: "nat \<Rightarrow> real \<Rightarrow> int" where
  "exponent_down 0 x = 0"
| "exponent_down (Suc n) x = (if x < 1 then exponent_down n (2 * x) - 1 else 0)"

definition float_exponent :: "real \<Rightarrow> int" where
  "float_exponent x =
     (if 1 \<le> \<bar>x\<bar> then exponent_up 1023 \<bar>x\<bar> else exponent_down 1022 \<bar>x\<bar>)"

definition pow2 :: "int \<Rightarrow> real" where
  "pow2 e = (if 0 \<le> e then 2 ^ nat e else 1 / 2 ^ nat (- e))"

definition round53 :: "real \<Rightarrow> real" where
  "round53 x =
     (let q = pow2 (float_exponent x - 52)
      in q * of_int (round_even (x / q)))"

definition overflow_bound :: real where
  "overflow_bound = 2 ^ 1024 - 2 ^ 970"

text \<open>The value of a float expression: a finite number or an infinity.\<close>

datatype py_float = Finite real | PosInf | NegInf

text \<open>
  \<^verbatim>\<open>a / b\<close> on two integers: the quotient correctly rounded; \<open>OverflowError\<close> when it
  is too large for a float.
\<close>

definition int_true_div :: "int \<Rightarrow> int \<Rightarrow> py_error + real" where
  "int_true_div a b =
     (if b = 0 then Inl ZeroDivisionError
      else if overflow_bound \<le> \<bar>of_int a / of_int b\<bar> then Inl OverflowError
      else Inr (round53 (of_int a / of_int b)))"

text \<open>The conversion of an integer operand to a float; \<open>OverflowError\<close> when it is too large.\<close>

definition float_of_int :: "int \<Rightarrow> py_error + real" where
  "float_of_int n =
     (if overflow_bound \<le> \<bar>of_int n\<bar> then Inl OverflowError else Inr (round53 (of_int n)))"

text \<open>\<^verbatim>\<open>x * y\<close> on two finite floats: an overflow gives an infinity, not an error.\<close>

definition float_mul :: "real \<Rightarrow> real \<Rightarrow> py_float" where
  "float_mul x y =
     (if overflow_bound \<le> x * y then PosInf
      else if x * y \<le> - overflow_bound then NegInf
      else Finite (round53 (x * y)))"

text \<open>\<^verbatim>\<open>x > c\<close> for a float \<open>x\<close> and a finite \<open>c\<close>, and \<^verbatim>\<open>n > x\<close> for an integer \<open>n\<close>: both exact.\<close>

definition float_gt :: "py_float \<Rightarrow> real \<Rightarrow> bool" where
  "float_gt x c = (case x of Finite r \<Rightarrow> r > c | PosInf \<Rightarrow> True | NegInf \<Rightarrow> False)"

definition int_gt_float :: "int \<Rightarrow> py_float \<Rightarrow> bool" where
  "int_gt_float n x = (case x of Finite r \<Rightarrow> of_int n > r | PosInf \<Rightarrow> False | NegInf \<Rightarrow> True)"

text \<open>The literals \<^verbatim>\<open>0.1\<close> and \<^verbatim>\<open>0.01\<close>: the floats nearest to the decimal fractions.\<close>

definition float_0_1 :: real where
  "float_0_1 = round53 (1 / 10)"

definition float_0_01 :: real where
  "float_0_01 = round53 (1 / 100)"

text \<open>
  The claim about \<open>parse_netstat_interface\<close> speaks of the first row that is accepted;
  these two definitions say what an accepted row is and what record it gives, in the
  claim's words, to be compared with the loop above.
\<close>

definition int_token :: "string \<Rightarrow> bool" where
  "int_token w = (case py_int 10 w of Inr n \<Rightarrow> True | Inl e \<Rightarrow> False)"

definition int_of_token :: "string \<Rightarrow> int" where
  "int_of_token w = (case py_int 10 w of Inr n \<Rightarrow> n | Inl e \<Rightarrow> 0)"

definition row_accepted :: "string \<Rightarrow> string \<Rightarrow> bool" where
  "row_accepted interface_name line =
     (let parts = py_split line in
      startswith interface_name line \<and> 10 \<le> length parts \<and>
      int_token (parts ! 4) \<and> int_token (parts ! 5) \<and> int_token (parts ! 6) \<and>
      int_token (parts ! 7) \<and> int_token (parts ! 8) \<and> int_token (parts ! 9) \<and>
      (length parts = 10 \<or> int_token (parts ! 10)))"

definition row_metrics :: "string \<Rightarrow> string list \<Rightarrow> network_metrics" where
  "row_metrics interface_name parts =
     \<lparr>interface = interface_name,
      packets_in = int_of_token (parts ! 4), errors_in = int_of_token (parts ! 5),
      bytes_in = int_of_token (parts ! 6), packets_out = int_of_token (parts ! 7),
      errors_out = int_of_token (parts ! 8), bytes_out = int_of_token (parts ! 9),
      collisions = (if length parts > 10 then int_of_token (parts ! 10) else 0)\<rparr>"

section \<open>parsers/system\_profiler.py\<close>

text \<open>\<^verbatim>\<open>if current_port\<close>: neither \<^verbatim>\<open>None\<close> nor the empty string.\<close>

definition py_truthy :: "string option \<Rightarrow> bool" where
  "py_truthy v = (case v of None \<Rightarrow> False | Some s \<Rightarrow> s \<noteq> [])"

text \<open>
  The loop of \<open>parse_hardware_port_mapping\<close>, with the dictionary and
  \<^verbatim>\<open>current_port\<close> as its state.
\<close>

fun hw_loop :: "string list \<Rightarrow> (string \<rightharpoonup> string) \<Rightarrow> string option
    \<Rightarrow> py_error + (string \<rightharpoonup> string)" where
  "hw_loop [] mapping current_port = Inr mapping"
| "hw_loop (l # rest) mapping current_port =
     (let line = py_strip l in
      if startswith ''Hardware Port:'' line then
        (case py_index (split_once CHR '':'' line) 1 of
           Inl e \<Rightarrow> Inl e
         | Inr v \<Rightarrow> hw_loop rest mapping (Some (py_strip v)))
      else if startswith ''Device:'' line \<and> py_truthy current_port then
        (case py_index (split_once CHR '':'' line) 1 of
           Inl e \<Rightarrow> Inl e
         | Inr v \<Rightarrow> hw_loop rest (mapping(py_strip v \<mapsto> the current_port)) None)
      else hw_loop rest mapping current_port)"

definition parse_hardware_port_mapping :: "string \<Rightarrow> py_error + (string \<rightharpoonup> string)" where
  "parse_hardware_port_mapping output =
     hw_loop (split_on CHR 0x0A (py_strip output)) Map.empty None"

text \<open>
  A line is a port line or a device line by its prefix once stripped; its label is the
  stripped text after the first colon.
\<close>

definition is_port_line :: "string \<Rightarrow> bool" where
  "is_port_line l = startswith ''Hardware Port:'' (py_strip l)"

definition is_device_line :: "string \<Rightarrow> bool" where
  "is_device_line l = startswith ''Device:'' (py_strip l)"

definition label_of :: "string \<Rightarrow> string" where
  "label_of l = py_strip (drop 1 (dropWhile (\<lambda>c. c \<noteq> CHR '':'') (py_strip l)))"

text \<open>
  The mapping as the claim words it: the lines are gone through in order, and a device
  line takes the nearest port line before it that no earlier device line has consumed,
  whatever lies between the two and whatever the label is; a device line with no such
  port line contributes nothing. \<open>stated_loop\<close> carries the consumed port lines.
\<close>

definition unconsumed_before :: "string list \<Rightarrow> nat list \<Rightarrow> nat \<Rightarrow> nat list" where
  "unconsumed_before ls consumed j =
     filter (\<lambda>i. is_port_line (ls ! i) \<and> i \<notin> set consumed) [0..<j]"

fun stated_loop :: "string list \<Rightarrow> nat list \<Rightarrow> nat list \<Rightarrow> (string \<times> string) list" where
  "stated_loop ls consumed [] = []"
| "stated_loop ls consumed (j # js) =
     (if is_device_line (ls ! j) then
        (case rev (unconsumed_before ls consumed j) of
           [] \<Rightarrow> stated_loop ls consumed js
         | i # _ \<Rightarrow> (label_of (ls ! j), label_of (ls ! i)) # stated_loop ls (i # consumed) js)
      else stated_loop ls consumed js)"

definition stated_assigned :: "string list \<Rightarrow> (string \<times> string) list" where
  "stated_assigned ls = stated_loop ls [] [0..<length ls]"

text \<open>
  The mapping as the code builds it, described line by line. The code keeps one pending
  port label: every port line replaces it, and a device line uses it only when it is
  not empty, and clears it. So \<open>port_line_for ls j\<close>, the port line a device line at
  index \<open>j\<close> takes its label from, is the nearest line before \<open>j\<close> that is a port line
  or a device line, when that is a port line and its label is not empty. \<open>assigned\<close>
  lists the pairs the device lines contribute, in the order of the lines.
\<close>

definition port_line_for :: "string list \<Rightarrow> nat \<Rightarrow> nat option" where
  "port_line_for ls j =
     (case rev (filter (\<lambda>i. is_port_line (ls ! i) \<or> is_device_line (ls ! i)) [0..<j]) of
        [] \<Rightarrow> None
      | i # _ \<Rightarrow> if is_port_line (ls ! i) \<and> label_of (ls ! i) \<noteq> [] then Some i else None)"

definition assigned :: "string list \<Rightarrow> (string \<times> string) list" where
  "assigned ls =
     concat (map (\<lambda>j. if is_device_line (ls ! j)
                       then (case port_line_for ls j of
                               None \<Rightarrow> []
                             | Some i \<Rightarrow> [(label_of (ls ! j), label_of (ls ! i))])
                       else [])
                 [0..<length ls])"

text \<open>
  The label a device line placed after the lines \<open>pre\<close> would take, and the lines of
  an output as the parser reads them.
\<close>

definition pending :: "string list \<Rightarrow> string option" where
  "pending pre = map_option (\<lambda>i. label_of (pre ! i)) (port_line_for pre (length pre))"

definition stripped_lines :: "string \<Rightarrow> string list" where
  "stripped_lines output = split_on CHR 0x0A (py_strip output)"

text \<open>The first group of a match: what \<^verbatim>\<open>findall\<close> gives for a pattern with one group.\<close>

definition group1 :: "string list \<Rightarrow> string" where
  "group1 gs = (case gs of [] \<Rightarrow> [] | g # _ \<Rightarrow> g)"

text \<open>\<^verbatim>\<open>nameserver\[\d+\]\s*:\s*(\d+\.\d+\.\d+\.\d+)\<close>\<close>

definition nameserver_pattern :: regex where
  "nameserver_pattern =
     lit ''nameserver['' @ [Atom re_digit Plus] @ lit '']'' @ [Atom py_isspace Star] @
     lit '':'' @ [Atom py_isspace Star, Open] @ dotted_quad @ [Close]"

definition parse_dns_servers :: "string \<Rightarrow> string list" where
  "parse_dns_servers output = fromkeys (map group1 (re_findall nameserver_pattern output))"

section \<open>parsers/dhcp.py\<close>

record dhcp_info =
  is_dhcp :: bool
  server :: "string option"
  router :: "string option"
  dns_servers :: "string list"
  domain_name :: "string option"
  lease_time :: "int option"
  subnet_mask :: "string option"

text \<open>\<^verbatim>\<open>server_identifier \(ip\):\s*(\d+\.\d+\.\d+\.\d+)\<close>\<close>

definition server_pattern :: regex where
  "server_pattern =
     lit ''server_identifier (ip):'' @ [Atom py_isspace Star, Open] @ dotted_quad @ [Close]"

text \<open>\<^verbatim>\<open>router \(ip_mult\):\s*\{([^}]+)\}\<close>\<close>

definition router_pattern :: regex where
  "router_pattern =
     lit ''router (ip_mult):'' @ [Atom py_isspace Star] @ lit ''{'' @
     [Open, Atom (\<lambda>c. c \<noteq> CHR ''}'') Plus, Close] @ lit ''}''"

text \<open>\<^verbatim>\<open>domain_name_server \(ip_mult\):\s*\{([^}]+)\}\<close>\<close>

definition dns_pattern :: regex where
  "dns_pattern =
     lit ''domain_name_server (ip_mult):'' @ [Atom py_isspace Star] @ lit ''{'' @
     [Open, Atom (\<lambda>c. c \<noteq> CHR ''}'') Plus, Close] @ lit ''}''"

text \<open>\<^verbatim>\<open>domain_name \(string\):\s*(.+)\<close>\<close>

definition domain_pattern :: regex where
  "domain_pattern =
     lit ''domain_name (string):'' @ [Atom py_isspace Star, Open, Atom (\<lambda>c. c \<noteq> CHR 0x0A) Plus, Close]"

text \<open>\<^verbatim>\<open>subnet_mask \(ip\):\s*(\d+\.\d+\.\d+\.\d+)\<close>\<close>

definition mask_pattern :: regex where
  "mask_pattern =
     lit ''subnet_mask (ip):'' @ [Atom py_isspace Star, Open] @ dotted_quad @ [Close]"

text \<open>\<^verbatim>\<open>lease_time \(uint32\):\s*0x([0-9a-fA-F]+)\<close>\<close>

definition lease_pattern :: regex where
  "lease_pattern =
     lit ''lease_time (uint32):'' @ [Atom py_isspace Star] @ lit ''0x'' @
     [Open, Atom re_hex_i Plus, Close]"

definition parse_dhcp_info :: "string \<Rightarrow> py_error + dhcp_info option" where
  "parse_dhcp_info output =
     (if \<not> contains ''op = BOOTREPLY'' output \<and> \<not> contains ''op = BOOTREQUEST'' output
      then Inr None
      else
        (let server_v = (case re_search server_pattern output of
                           None \<Rightarrow> None | Some gs \<Rightarrow> Some (group1 gs));
             router_v = (case re_search router_pattern output of
                           None \<Rightarrow> None
                         | Some gs \<Rightarrow> (case split_on CHR '','' (group1 gs) of
                                        [] \<Rightarrow> None | r # _ \<Rightarrow> Some (py_strip r)));
             dns_v = (case re_search dns_pattern output of
                        None \<Rightarrow> []
                      | Some gs \<Rightarrow> map py_strip (split_on CHR '','' (group1 gs)));
             domain_v = (case re_search domain_pattern output of
                           None \<Rightarrow> None | Some gs \<Rightarrow> Some (py_strip (group1 gs)));
             mask_v = (case re_search mask_pattern output of
                         None \<Rightarrow> None | Some gs \<Rightarrow> Some (group1 gs))
         in err_bind (case re_search lease_pattern output of
                        None \<Rightarrow> Inr None
                      | Some gs \<Rightarrow> err_bind (py_int 16 (group1 gs)) (\<lambda>n. Inr (Some n)))
              (\<lambda>lease_v.
                 Inr (Some \<lparr>is_dhcp = True, server = server_v, router = router_v,
                            dns_servers = dns_v, domain_name = domain_v,
                            lease_time = lease_v, subnet_mask = mask_v\<rparr>))))"

section \<open>parsers/airport.py\<close>

text \<open>
  Modelled from the spec: the record type \<^verbatim>\<open>WiFiInfo\<close> is declared in the missing
  \<^verbatim>\<open>models.py\<close>. Its fields are the keyword arguments of the constructor call below.
\<close>

record wifi_info =
  ssid :: string
  bssid :: string
  channel :: int
  rssi :: int
  noise :: int
  snr :: int
  tx_rate :: int
  mcs_index :: int
  phy_mode :: string
  security :: string
  channel_width :: int

text \<open>
  \<open>extract_value\<close>: the pattern is \<^verbatim>\<open>{key}:\s*(.+)\<close>; the keys of the source hold no
  character that is special in a pattern. The default is \<^verbatim>\<open>None\<close> or a string.
\<close>

definition key_pattern :: "string \<Rightarrow> regex" where
  "key_pattern key =
     lit key @ lit '':'' @ [Atom py_isspace Star, Open, Atom (\<lambda>c. c \<noteq> CHR 0x0A) Plus, Close]"

definition extract_value :: "string \<Rightarrow> string \<Rightarrow> string option \<Rightarrow> string option" where
  "extract_value output key dflt =
     (case re_search (key_pattern key) output of
        None \<Rightarrow> dflt
      | Some gs \<Rightarrow> Some (py_strip (group1 gs)))"

text \<open>
  \<open>extract_int\<close>: \<^verbatim>\<open>re.sub(r'[^\d-]', '', value)\<close> keeps the digits and minus signs;
  a \<open>ValueError\<close> of \<^verbatim>\<open>int\<close> is passed over and the default returned.
\<close>

definition extract_int :: "string \<Rightarrow> string \<Rightarrow> int \<Rightarrow> int" where
  "extract_int output key dflt =
     (let v = extract_value output key None in
      if py_truthy v then
        (case py_int 10 (filter (\<lambda>c. re_digit c \<or> c = CHR ''-'') (the v)) of
           Inr n \<Rightarrow> n
         | Inl e \<Rightarrow> dflt)
      else dflt)"

text \<open>A field read with the default \<^verbatim>\<open>''\<close> is a string.\<close>

definition str_of :: "string option \<Rightarrow> string" where
  "str_of v = (case v of None \<Rightarrow> [] | Some s \<Rightarrow> s)"

definition parse_airport_info :: "string \<Rightarrow> wifi_info option" where
  "parse_airport_info output =
     (if output = [] \<or> contains ''AirPort: Off'' output then None
      else
        (let ssid_v = extract_value output ''SSID'' (Some []) in
         if \<not> py_truthy ssid_v then None
         else
           (let rssi_v = extract_int output ''agrCtlRSSI'' 0;
                noise_v = extract_int output ''agrCtlNoise'' 0
            in Some \<lparr>ssid = str_of ssid_v,
                     bssid = str_of (extract_value output ''BSSID'' (Some [])),
                     channel = extract_int output ''channel'' 0,
                     rssi = rssi_v,
                     noise = noise_v,
                     snr = rssi_v - noise_v,
                     tx_rate = extract_int output ''lastTxRate'' 0,
                     mcs_index = extract_int output ''MCS'' (- 1),
                     phy_mode = str_of (extract_value output ''PHY Mode'' (Some [])),
                     security = str_of (extract_value output ''link auth'' (Some [])),
                     channel_width = extract_int output ''channelWidth'' 0\<rparr>)))"

section \<open>parsers/ifconfig.py\<close>

text \<open>
  Modelled from the spec: the record type \<^verbatim>\<open>InterfaceInfo\<close> is declared in the missing
  \<^verbatim>\<open>models.py\<close>. Its fields are the keyword arguments of the constructor call below.
\<close>

record interface_info =
  name :: string
  hardware_port :: string
  mac_address :: string
  ipv4_address :: "string option"
  ipv6_addresses :: "string list"
  netmask :: "string option"
  status :: string
  media_type :: string
  mtu :: int

text \<open>The loop that collects \<^verbatim>\<open>block_lines\<close>; \<^verbatim>\<open>break\<close> ends it with what was collected.\<close>

fun block_loop :: "string \<Rightarrow> string list \<Rightarrow> bool \<Rightarrow> string list" where
  "block_loop interface_name [] in_block = []"
| "block_loop interface_name (line # rest) in_block =
     (if startswith (interface_name @ '':'') line then line # block_loop interface_name rest True
      else if in_block \<and> line \<noteq> []
              \<and> \<not> (startswith [CHR 0x09] line \<or> startswith '' '' line) then []
      else if in_block then line # block_loop interface_name rest in_block
      else block_loop interface_name rest in_block)"

text \<open>\<^verbatim>\<open>ether\s+([0-9a-f:]+)\<close> with \<^verbatim>\<open>re.IGNORECASE\<close>\<close>

definition ether_pattern :: regex where
  "ether_pattern = lit_i ''ether'' @ [Atom py_isspace Plus, Open, Atom re_hexcolon_i Plus, Close]"

text \<open>\<^verbatim>\<open>inet\s+(\d+\.\d+\.\d+\.\d+)\s+netmask\s+0x([0-9a-f]+)\<close>\<close>

definition inet_pattern :: regex where
  "inet_pattern =
     lit ''inet'' @ [Atom py_isspace Plus, Open] @ dotted_quad @ [Close, Atom py_isspace Plus] @
     lit ''netmask'' @ [Atom py_isspace Plus] @ lit ''0x'' @ [Open, Atom re_hex Plus, Close]"

text \<open>\<^verbatim>\<open>inet6\s+([0-9a-f:]+)\<close> with \<^verbatim>\<open>re.IGNORECASE\<close>\<close>

definition inet6_pattern :: regex where
  "inet6_pattern = lit_i ''inet6'' @ [Atom py_isspace Plus, Open, Atom re_hexcolon_i Plus, Close]"

text \<open>\<^verbatim>\<open>status:\s+(\w+)\<close>, \<^verbatim>\<open>media:\s+([^\n]+)\<close>, \<^verbatim>\<open>mtu\s+(\d+)\<close>\<close>

definition status_pattern :: regex where
  "status_pattern = lit ''status:'' @ [Atom py_isspace Plus, Open, Atom re_word Plus, Close]"

definition media_pattern :: regex where
  "media_pattern =
     lit ''media:'' @ [Atom py_isspace Plus, Open, Atom (\<lambda>c. c \<noteq> CHR 0x0A) Plus, Close]"

definition mtu_pattern :: regex where
  "mtu_pattern = lit ''mtu'' @ [Atom py_isspace Plus, Open, Atom re_digit Plus, Close]"

text \<open>
  \<^verbatim>\<open>'.'.join(str(int(hex_mask[i:i+2], 16)) for i in range(0, 8, 2))\<close>: the four slices
  are converted in order, and the first one \<^verbatim>\<open>int\<close> rejects raises.
\<close>

fun err_map :: "('a \<Rightarrow> py_error + 'b) \<Rightarrow> 'a list \<Rightarrow> py_error + 'b list" where
  "err_map f [] = Inr []"
| "err_map f (x # xs) =
     (case f x of
        Inl e \<Rightarrow> Inl e
      | Inr y \<Rightarrow> (case err_map f xs of Inl e \<Rightarrow> Inl e | Inr ys \<Rightarrow> Inr (y # ys)))"

definition hex_to_dotted :: "string \<Rightarrow> py_error + string" where
  "hex_to_dotted hex_mask =
     err_bind (err_map (\<lambda>i. err_bind (py_int 16 (take 2 (drop i hex_mask))) (\<lambda>n. Inr (py_str n)))
                       [0, 2, 4, 6])
       (\<lambda>bytes. Inr (py_join ''.'' bytes))"

definition parse_ifconfig :: "string \<Rightarrow> string \<Rightarrow> py_error + interface_info option" where
  "parse_ifconfig output interface_name =
     (let block_lines = block_loop interface_name (split_on CHR 0x0A output) False in
      if block_lines = [] then Inr None
      else
        (let block = py_join [CHR 0x0A] block_lines;
             mac_v = (case re_search ether_pattern block of
                        None \<Rightarrow> [] | Some gs \<Rightarrow> group1 gs)
         in err_bind (case re_search inet_pattern block of
                        None \<Rightarrow> Inr (None, None)
                      | Some gs \<Rightarrow>
                          err_bind (hex_to_dotted (gs ! 1))
                            (\<lambda>mask. Inr (Some (gs ! 0), Some mask)))
              (\<lambda>(ipv4_v, netmask_v).
                 (let ipv6_v = map group1 (re_findall inet6_pattern block);
                      status_v = (case re_search status_pattern block of
                                    None \<Rightarrow> ''unknown'' | Some gs \<Rightarrow> group1 gs);
                      media_v = (case re_search media_pattern block of
                                   None \<Rightarrow> [] | Some gs \<Rightarrow> py_strip (group1 gs))
                  in err_bind (case re_search mtu_pattern block of
                                 None \<Rightarrow> Inr 0
                               | Some gs \<Rightarrow> py_int 10 (group1 gs))
                       (\<lambda>mtu_v.
                          Inr (Some \<lparr>name = interface_name, hardware_port = [],
                                     mac_address = mac_v, ipv4_address = ipv4_v,
                                     ipv6_addresses = ipv6_v, netmask = netmask_v,
                                     status = status_v, media_type = media_v,
                                     mtu = mtu_v\<rparr>))))))"

section \<open>collectors/offline.py\<close>

text \<open>
  The collectors run a command and read its standard output. The outcome of
  \<^verbatim>\<open>execute_command\<close> is their argument here: the error it raised, or
  \<^verbatim>\<open>(stdout, stderr, returncode)\<close>. What a collector writes with \<^verbatim>\<open>logger.error\<close> is
  returned beside its result.
\<close>

datatype log_entry = LogError string py_error

type_synonym cmd_result = "py_error + string \<times> string \<times> int"

record connection =
  command :: string
  pid :: string
  user :: string
  protocol :: string
  state :: string

fun connections_loop :: "string list \<Rightarrow> connection list" where
  "connections_loop [] = []"
| "connections_loop (line # rest) =
     (let parts = py_split line in
      if length parts \<ge> 9 then
        \<lparr>command = parts ! 0, pid = parts ! 1, user = parts ! 2,
         protocol = (if length parts > 7 then parts ! 7 else []),
         state = (if length parts > 9 then parts ! 9 else [])\<rparr> # connections_loop rest
      else connections_loop rest)"

definition get_active_connections :: "cmd_result \<Rightarrow> connection list \<times> log_entry list" where
  "get_active_connections cmd =
     (case cmd of
        Inl e \<Rightarrow> ([], [LogError ''Failed to get active connections: '' e])
      | Inr (stdout, stderr, code) \<Rightarrow>
          (let lines = split_on CHR 0x0A (py_strip stdout);
               connections = connections_loop (drop 1 lines)
           in (take 50 connections, [])))"

record arp_entry =
  hostname :: string
  ip :: string
  mac :: string
  arp_interface :: string

text \<open>\<^verbatim>\<open>(\S+)\s+\((\d+\.\d+\.\d+\.\d+)\)\s+at\s+([0-9a-f:]+)\s+on\s+(\w+)\<close>\<close>

definition arp_pattern :: regex where
  "arp_pattern =
     [Open, Atom (\<lambda>c. \<not> py_isspace c) Plus, Close, Atom py_isspace Plus] @ lit ''('' @
     [Open] @ dotted_quad @ [Close] @ lit '')'' @ [Atom py_isspace Plus] @ lit ''at'' @
     [Atom py_isspace Plus, Open, Atom re_hexcolon Plus, Close, Atom py_isspace Plus] @
     lit ''on'' @ [Atom py_isspace Plus, Open, Atom re_word Plus, Close]"

definition get_arp_cache :: "cmd_result \<Rightarrow> arp_entry list \<times> log_entry list" where
  "get_arp_cache cmd =
     (case cmd of
        Inl e \<Rightarrow> ([], [LogError ''Failed to get ARP cache: '' e])
      | Inr (stdout, stderr, code) \<Rightarrow>
          (map (\<lambda>gs. \<lparr>hostname = gs ! 0, ip = gs ! 1, mac = gs ! 2, arp_interface = gs ! 3\<rparr>)
               (re_findall arp_pattern stdout), []))"

section \<open>utils.py: assess\_network\_health\<close>

text \<open>
  Modelled from the spec: the record types \<^verbatim>\<open>PingResult\<close>, \<^verbatim>\<open>SpeedTestResult\<close> and
  \<^verbatim>\<open>HealthStatus\<close> are declared in the missing \<^verbatim>\<open>models.py\<close>. The fields are the
  ones the constructor calls and attribute reads of the sources name. The spec gives the
  four round-trip times of a ping result as optional, absent for a failed run: an absent
  one is \<open>None\<close>. A \<^verbatim>\<open>float\<close> field holds a finite float, the real number it denotes;
  the thresholds it is compared with (\<^verbatim>\<open>5.0\<close>, \<^verbatim>\<open>1.0\<close>, \<^verbatim>\<open>100\<close>, \<^verbatim>\<open>20\<close>, \<^verbatim>\<open>10\<close>,
  \<^verbatim>\<open>5\<close>) are floats themselves, so these comparisons are exact.
\<close>

record ping_result =
  host :: string
  packets_sent :: int
  packets_received :: int
  packet_loss :: real
  min_rtt :: "real option"
  avg_rtt :: "real option"
  max_rtt :: "real option"
  stddev_rtt :: "real option"

text \<open>
  Modelled from the spec: the derived attribute \<^verbatim>\<open>jitter\<close> of \<^verbatim>\<open>PingResult\<close>
  (\<^verbatim>\<open>models.py\<close> is missing), "defined as stddev RTT when present, else 0".
\<close>

definition jitter :: "ping_result \<Rightarrow> real" where
  "jitter p = (case stddev_rtt p of None \<Rightarrow> 0 | Some s \<Rightarrow> s)"

record speed_test_result =
  download_mbps :: real
  upload_mbps :: real

text \<open>
  A message is kept as its parts: literal text, an integer written with \<^verbatim>\<open>str\<close>, and a
  float written with a fixed number of decimals (\<^verbatim>\<open>{x:.2f}\<close> is \<open>Fix 2 x\<close>).
\<close>

datatype frag = Txt string | Num int | Fix nat py_float

type_synonym message = "frag list"

text \<open>The four local variables of the function, and the verdict built from them.\<close>

record health_state =
  score :: int
  warnings :: "message list"
  errors :: "message list"
  recommendations :: "message list"

record 'o health_status = health_state +
  overall :: 'o

definition penalty :: "int \<Rightarrow> health_state \<Rightarrow> health_state" where
  "penalty n st = st\<lparr>score := score st - n\<rparr>"

definition add_warning :: "message \<Rightarrow> health_state \<Rightarrow> health_state" where
  "add_warning m st = st\<lparr>warnings := warnings st @ [m]\<rparr>"

definition add_error :: "message \<Rightarrow> health_state \<Rightarrow> health_state" where
  "add_error m st = st\<lparr>errors := errors st @ [m]\<rparr>"

definition add_recommendation :: "message \<Rightarrow> health_state \<Rightarrow> health_state" where
  "add_recommendation m st = st\<lparr>recommendations := recommendations st @ [m]\<rparr>"

text \<open>Check interface status.\<close>

definition check_interface :: "interface_info \<Rightarrow> health_state \<Rightarrow> health_state" where
  "check_interface interface_info st =
     (if status interface_info \<noteq> ''active'' then
        add_recommendation [Txt ''Check interface configuration and ensure it's enabled'']
          (add_error [Txt ''Interface is not active''] (penalty 50 st))
      else st)"

text \<open>
  Check for errors: \<^verbatim>\<open>if metrics\<close> skips an absent record. The error rate is
  \<^verbatim>\<open>(errors_in + errors_out) / total_packets * 100\<close>, a true division of integers and a
  float product; the collision test compares an integer with the float
  \<^verbatim>\<open>total_packets * 0.01\<close>. Either conversion raises \<open>OverflowError\<close> on a counter too
  large for a float.
\<close>

definition check_metrics :: "network_metrics option \<Rightarrow> health_state \<Rightarrow> py_error + health_state" where
  "check_metrics metrics st =
     (case metrics of
        None \<Rightarrow> Inr st
      | Some m \<Rightarrow>
          (let total_packets = packets_in m + packets_out m in
           if total_packets > 0 then
             err_bind (int_true_div (errors_in m + errors_out m) total_packets)
               (\<lambda>quotient.
                  (let error_rate = float_mul quotient 100;
                       st1 = (if float_gt error_rate 1 then
                                add_recommendation
                                  [Txt ''Check network cables or WiFi signal strength'']
                                  (add_error [Txt ''High error rate: '', Fix 2 error_rate, Txt ''%'']
                                     (penalty 20 st))
                              else if float_gt error_rate float_0_1 then
                                add_warning
                                  [Txt ''Moderate error rate: '', Fix 2 error_rate, Txt ''%'']
                                  (penalty 10 st)
                              else st)
                   in err_bind (float_of_int total_packets)
                        (\<lambda>total_f.
                           Inr (if int_gt_float (collisions m) (float_mul total_f float_0_01) then
                                  add_recommendation [Txt ''Network may be congested'']
                                    (add_warning [Txt ''High collision rate detected'']
                                       (penalty 5 st1))
                                else st1))))
           else Inr st))"

text \<open>
  Check WiFi signal quality. \<^verbatim>\<open>band\<close> is a derived attribute of \<^verbatim>\<open>WiFiInfo\<close> in the
  missing \<^verbatim>\<open>models.py\<close>; it is a parameter here.
\<close>

definition check_wifi :: "(wifi_info \<Rightarrow> string) \<Rightarrow> wifi_info option \<Rightarrow> health_state \<Rightarrow> health_state" where
  "check_wifi band wifi st =
     (case wifi of
        None \<Rightarrow> st
      | Some w \<Rightarrow>
          (let st1 = (if rssi w < - 80 then
                        add_recommendation [Txt ''Move closer to access point or use 5GHz band'']
                          (add_error [Txt ''Very weak WiFi signal: '', Num (rssi w), Txt '' dBm'']
                             (penalty 20 st))
                      else if rssi w < - 70 then
                        add_recommendation [Txt ''Consider moving closer to access point'']
                          (add_warning [Txt ''Weak WiFi signal: '', Num (rssi w), Txt '' dBm'']
                             (penalty 10 st))
                      else if rssi w < - 60 then
                        add_warning [Txt ''Fair WiFi signal: '', Num (rssi w), Txt '' dBm'']
                          (penalty 5 st)
                      else st);
               st2 = (if snr w < 20 then
                        add_recommendation
                          [Txt ''High interference detected, try changing WiFi channel'']
                          (add_error [Txt ''Poor signal-to-noise ratio: '', Num (snr w), Txt '' dB'']
                             (penalty 15 st1))
                      else if snr w < 30 then
                        add_warning [Txt ''Low signal-to-noise ratio: '', Num (snr w), Txt '' dB'']
                          (penalty 5 st1)
                      else st1);
               st3 = (if phy_mode w \<noteq> []
                         \<and> (contains ''802.11b'' (phy_mode w) \<or> contains ''802.11g'' (phy_mode w)) then
                        add_recommendation
                          [Txt ''Upgrade to WiFi 5 (802.11ac) or WiFi 6 (802.11ax)'']
                          (add_warning [Txt ''Using older WiFi standard: '', Txt (phy_mode w)] st2)
                      else st2)
           in if channel_width w \<noteq> 0 \<and> channel_width w < 40 \<and> band w = ''5GHz'' then
                add_recommendation [Txt ''Configure router for 80MHz or 160MHz channel width'']
                  (add_warning [Txt ''Using narrow channel width: '', Num (channel_width w),
                                Txt ''MHz on 5GHz''] st3)
              else st3))"

text \<open>
  Check ping results. \<^verbatim>\<open>result.avg_rtt > 100\<close> compares the attribute as it is: on
  \<^verbatim>\<open>None\<close> the comparison raises \<open>TypeError\<close>.
\<close>

definition check_ping :: "ping_result \<Rightarrow> health_state \<Rightarrow> py_error + health_state" where
  "check_ping result st =
     (let st1 = (if packet_loss result > 5.0 then
                   add_recommendation [Txt ''Check network stability and internet connection'']
                     (add_error [Txt ''High packet loss to '', Txt (host result), Txt '': '',
                                 Fix 1 (Finite (packet_loss result)), Txt ''%''] (penalty 15 st))
                 else if packet_loss result > 1.0 then
                   add_warning [Txt ''Moderate packet loss to '', Txt (host result), Txt '': '',
                                Fix 1 (Finite (packet_loss result)), Txt ''%''] (penalty 5 st)
                 else st)
      in case avg_rtt result of
           None \<Rightarrow> Inl TypeError
         | Some rtt \<Rightarrow>
             (let st2 = (if rtt > 100 then
                           add_recommendation
                             [Txt ''Check for network congestion or bandwidth issues'']
                             (add_warning [Txt ''High latency to '', Txt (host result), Txt '': '',
                                           Fix 1 (Finite rtt), Txt '' ms''] (penalty 10 st1))
                         else st1)
              in Inr (if jitter result > 20 then
                        add_recommendation
                          [Txt ''Network instability detected, may affect VoIP and gaming'']
                          (add_warning [Txt ''High jitter to '', Txt (host result), Txt '': '',
                                        Fix 1 (Finite (jitter result)), Txt '' ms''] (penalty 10 st2))
                      else if jitter result > 10 then
                        add_warning [Txt ''Moderate jitter to '', Txt (host result), Txt '': '',
                                     Fix 1 (Finite (jitter result)), Txt '' ms''] (penalty 5 st2)
                      else st2)))"

fun ping_loop :: "ping_result list \<Rightarrow> health_state \<Rightarrow> py_error + health_state" where
  "ping_loop [] st = Inr st"
| "ping_loop (result # rest) st =
     (case check_ping result st of Inl e \<Rightarrow> Inl e | Inr st' \<Rightarrow> ping_loop rest st')"

text \<open>\<^verbatim>\<open>if ping_results\<close> skips \<^verbatim>\<open>None\<close> and the empty list.\<close>

definition check_pings :: "ping_result list option \<Rightarrow> health_state \<Rightarrow> py_error + health_state" where
  "check_pings ping_results st =
     (case ping_results of None \<Rightarrow> Inr st | Some rs \<Rightarrow> ping_loop rs st)"

text \<open>Check speed test results.\<close>

definition check_speed :: "speed_test_result option \<Rightarrow> health_state \<Rightarrow> health_state" where
  "check_speed speed_result st =
     (case speed_result of
        None \<Rightarrow> st
      | Some s \<Rightarrow>
          (let st1 = (if download_mbps s < 10 then
                        add_recommendation [Txt ''Contact ISP or check for bandwidth throttling'']
                          (add_warning [Txt ''Slow download speed: '', Fix 1 (Finite (download_mbps s)),
                                        Txt '' Mbps''] (penalty 10 st))
                      else st)
           in if upload_mbps s < 5 then
                add_warning [Txt ''Slow upload speed: '', Fix 1 (Finite (upload_mbps s)), Txt '' Mbps'']
                  (penalty 5 st1)
              else st1))"

text \<open>
  The function. \<^verbatim>\<open>HealthStatus.from_score\<close> is in the missing \<^verbatim>\<open>models.py\<close>; it is
  a parameter, as \<open>band\<close> is.
\<close>

definition assess_network_health ::
  "(wifi_info \<Rightarrow> string) \<Rightarrow> (int \<Rightarrow> 'o) \<Rightarrow> interface_info \<Rightarrow> network_metrics option
     \<Rightarrow> wifi_info option \<Rightarrow> ping_result list option \<Rightarrow> speed_test_result option
     \<Rightarrow> py_error + 'o health_status" where
  "assess_network_health band from_score interface_info metrics wifi_info ping_results speed_result =
     (let st0 = \<lparr>score = 100, warnings = [], errors = [], recommendations = []\<rparr>;
          st1 = check_interface interface_info st0
      in err_bind (check_metrics metrics st1)
           (\<lambda>st2.
              (let st3 = check_wifi band wifi_info st2
               in err_bind (check_pings ping_results st3)
                    (\<lambda>st4.
                       (let st5 = check_speed speed_result st4;
                            final = max 0 (score st5)
                        in Inr \<lparr>score = final, warnings = warnings st5, errors = errors st5,
                                recommendations = recommendations st5,
                                overall = from_score final\<rparr>)))))"


definition error_rate_of :: "network_metrics \<Rightarrow> py_error + py_float" where
  "error_rate_of m =
     err_bind (int_true_div (errors_in m + errors_out m) (packets_in m + packets_out m))
       (\<lambda>quotient. Inr (float_mul quotient 100))"

definition collision_limit :: "network_metrics \<Rightarrow> py_error + py_float" where
  "collision_limit m =
     err_bind (float_of_int (packets_in m + packets_out m))
       (\<lambda>total_f. Inr (float_mul total_f float_0_01))"

text \<open>The counters for which the float arithmetic of the check overflows.\<close>

definition metrics_overflow :: "network_metrics option \<Rightarrow> bool" where
  "metrics_overflow metrics =
     (case metrics of
        None \<Rightarrow> False
      | Some m \<Rightarrow>
          packets_in m + packets_out m > 0
          \<and> (overflow_bound
                \<le> \<bar>real_of_int (errors_in m + errors_out m) / real_of_int (packets_in m + packets_out m)\<bar>
               \<or> overflow_bound \<le> \<bar>real_of_int (packets_in m + packets_out m)\<bar>))"

definition error_rate_penalty :: "py_float \<Rightarrow> int" where
  "error_rate_penalty error_rate =
     (if float_gt error_rate 1 then 20 else if float_gt error_rate float_0_1 then 10 else 0)"

definition metrics_penalty :: "network_metrics option \<Rightarrow> int" where
  "metrics_penalty metrics =
     (case metrics of
        None \<Rightarrow> 0
      | Some m \<Rightarrow>
          if packets_in m + packets_out m > 0 then
            (case error_rate_of m of Inl e \<Rightarrow> 0 | Inr error_rate \<Rightarrow> error_rate_penalty error_rate)
            + (case collision_limit m of
                 Inl e \<Rightarrow> 0
               | Inr limit \<Rightarrow> if int_gt_float (collisions m) limit then 5 else 0)
          else 0)"


definition ping_penalty :: "ping_result \<Rightarrow> int" where
  "ping_penalty p =
     (if packet_loss p > 5.0 then 15 else if packet_loss p > 1.0 then 5 else 0)
     + (case avg_rtt p of None \<Rightarrow> 0 | Some rtt \<Rightarrow> if rtt > 100 then 10 else 0)
     + (if jitter p > 20 then 10 else if jitter p > 10 then 5 else 0)"



text \<open>Every supplied ping result carries an average round-trip time.\<close>

definition rtt_present :: "ping_result list option \<Rightarrow> bool" where
  "rtt_present ps = (case ps of None \<Rightarrow> True | Some rs \<Rightarrow> list_all (\<lambda>p. avg_rtt p \<noteq> None) rs)"







text \<open>
  The record \<^verbatim>\<open>run_ping_test\<close> returns when the \<^verbatim>\<open>ping\<close> command exits with a
  non-zero code: nothing received, total loss, the round-trip fields left at their
  default.
\<close>

definition unreachable_result :: "string \<Rightarrow> int \<Rightarrow> ping_result" where
  "unreachable_result h n =
     \<lparr>host = h, packets_sent = n, packets_received = 0, packet_loss = 100.0,
      min_rtt = None, avg_rtt = None, max_rtt = None, stddev_rtt = None\<rparr>"

text \<open>Records of a healthy connection, used where a theorem is run on a concrete bundle.\<close>

definition example_interface :: interface_info where
  "example_interface =
     \<lparr>name = ''en0'', hardware_port = ''Wi-Fi'', mac_address = ''aa:bb:cc:dd:ee:ff'',
      ipv4_address = Some ''192.168.1.10'', ipv6_addresses = [],
      netmask = Some ''255.255.255.0'', status = ''active'', media_type = ''autoselect'',
      mtu = 1500\<rparr>"

definition example_metrics :: network_metrics where
  "example_metrics =
     \<lparr>interface = ''en0'', packets_in = 1000, errors_in = 0, bytes_in = 500000,
      packets_out = 800, errors_out = 0, bytes_out = 200000, collisions = 0\<rparr>"

definition example_wifi :: wifi_info where
  "example_wifi =
     \<lparr>ssid = ''home'', bssid = ''11:22:33:44:55:66'', channel = 36, rssi = - 55, noise = - 95,
      snr = 40, tx_rate = 866, mcs_index = 9, phy_mode = ''802.11ac'', security = ''wpa2-psk'',
      channel_width = 80\<rparr>"

definition example_ping :: ping_result where
  "example_ping =
     \<lparr>host = ''8.8.8.8'', packets_sent = 10, packets_received = 10, packet_loss = 0,
      min_rtt = Some 15, avg_rtt = Some 20, max_rtt = Some 30, stddev_rtt = Some 2\<rparr>"

definition example_speed :: speed_test_result where
  "example_speed = \<lparr>download_mbps = 100, upload_mbps = 20\<rparr>"

definition example_band :: "wifi_info \<Rightarrow> string" where
  "example_band w = (if channel w > 14 then ''5GHz'' else ''2.4GHz'')"

text \<open>
  Counters on which the float arithmetic of the error rate and the exact one part: the
  exact rate is above 0.1 percent, the computed one is the float \<^verbatim>\<open>0.1\<close>.
\<close>

definition rounded_metrics :: network_metrics where
  "rounded_metrics =
     \<lparr>interface = ''en0'', packets_in = 10 ^ 19, errors_in = 10 ^ 16 + 1, bytes_in = 0,
      packets_out = 0, errors_out = 0, bytes_out = 0, collisions = 0\<rparr>"

text \<open>
  The elements of a list at their first occurrence, in the order of the list: what
  "each address at most once, in first-seen order" says of a list of matches.
\<close>

definition first_occurrences :: "'a list \<Rightarrow> 'a list" where
  "first_occurrences xs =
     map (\<lambda>k. xs ! k) (filter (\<lambda>k. xs ! k \<notin> set (take k xs)) [0..<length xs])"

text \<open>Command outputs used where a theorem is run on a concrete text.\<close>

definition example_airport_output :: string where
  "example_airport_output =
     ''     agrCtlRSSI: -55\<newline>     agrCtlNoise: -95\<newline>     lastTxRate: 866\<newline>     PHY Mode: 802.11ac\<newline>     SSID: home\<newline>     channel: 36''"

definition short_netmask_output :: string where
  "short_netmask_output = ''en0: flags=8863 mtu 1500\<newline> inet 10.0.0.5 netmask 0xff''"

definition repeated_dns_packet :: string where
  "repeated_dns_packet =
     ''op = BOOTREPLY\<newline>domain_name_server (ip_mult): {8.8.8.8, 1.1.1.1, 8.8.8.8}\<newline>''"

definition arp_line :: string where
  "arp_line = ''? (10.0.0.1) at a:b on en0\<newline>''"

definition example_ports_output :: string where
  "example_ports_output =
     ''Hardware Port: Wi-Fi\<newline>Device: en0\<newline>Ethernet Address: aa:bb\<newline>\<newline>Hardware Port:\<newline>Device: en1\<newline>Device: en2\<newline>Hardware Port: USB\<newline>Hardware Port: Bridge\<newline>Device: bridge0''"

definition empty_label_output :: string where
  "empty_label_output = ''Hardware Port:\<newline>Device: en1''"

definition two_ports_output :: string where
  "two_ports_output = ''Hardware Port: A\<newline>Hardware Port: B\<newline>Device: d1\<newline>Device: d2''"

definition repeated_nameservers :: string where
  "repeated_nameservers =
     ''nameserver[0] : 8.8.8.8\<newline>nameserver[1] : 1.1.1.1\<newline>nameserver[0] : 8.8.8.8''"

section \<open>Properties of the float arithmetic\<close>

lemma round_even_mono: "x \<le> y \<Longrightarrow> round_even x \<le> round_even y"
proof -
  assume xy: "x \<le> y"
  have fl: "\<lfloor>x\<rfloor> \<le> \<lfloor>y\<rfloor>" using xy by (rule floor_mono)
  have ux: "round_even x \<le> \<lfloor>x\<rfloor> + 1" by (simp add: round_even_def Let_def)
  have ly: "\<lfloor>y\<rfloor> \<le> round_even y" by (simp add: round_even_def Let_def)
  show ?thesis
  proof (cases "\<lfloor>x\<rfloor> < \<lfloor>y\<rfloor>")
    case True
    with ux ly show ?thesis by linarith
  next
    case False
    with fl have eq: "\<lfloor>x\<rfloor> = \<lfloor>y\<rfloor>" by simp
    then have "x - of_int \<lfloor>y\<rfloor> \<le> y - of_int \<lfloor>y\<rfloor>" using xy by simp
    then show ?thesis using eq by (auto simp: round_even_def Let_def)
  qed
qed

lemma round_even_of_int [simp]: "round_even (of_int n) = n"
  by (simp add: round_even_def)

lemma round_even_zero [simp]: "round_even 0 = 0"
  using round_even_of_int [of 0] by simp


lemma pow2_powr: "pow2 e = 2 powr of_int e"
proof (cases "0 \<le> e")
  case True
  then have "2 powr real_of_int e = 2 powr real (nat e)" by simp
  also have "\<dots> = 2 ^ nat e" by (rule powr_realpow) simp
  finally show ?thesis using True by (simp add: pow2_def)
next
  case False
  then have "2 powr real_of_int e = 2 powr (- real (nat (- e)))" by simp
  also have "\<dots> = 1 / 2 powr real (nat (- e))" by (simp add: powr_minus_divide)
  also have "2 powr real (nat (- e)) = (2::real) ^ nat (- e)" by (rule powr_realpow) simp
  finally show ?thesis using False by (simp add: pow2_def)
qed

lemma pow2_pos: "0 < pow2 e"
  by (simp add: pow2_powr)

lemma floor_log2_half:
  assumes "0 < x"
  shows "\<lfloor>log 2 (x / 2)\<rfloor> = \<lfloor>log 2 x\<rfloor> - 1"
proof -
  have "log 2 (x / 2) = log 2 x - 1" using assms by (simp add: log_divide)
  then show ?thesis by simp
qed

lemma floor_log2_double:
  assumes "0 < x"
  shows "\<lfloor>log 2 (2 * x)\<rfloor> = \<lfloor>log 2 x\<rfloor> + 1"
proof -
  have "log 2 (2 * x) = log 2 x + 1" using assms by (simp add: log_mult)
  then show ?thesis by simp
qed

lemma floor_log2_unit:
  assumes "1 \<le> x" "x < 2"
  shows "\<lfloor>log 2 x\<rfloor> = 0"
proof -
  have "0 \<le> log 2 x" using assms(1) by simp
  moreover have "log 2 x < 1" using assms log_less_iff [of 2 x 1] by simp
  ultimately show ?thesis by linarith
qed

lemma exponent_up_log:
  "1 \<le> x \<Longrightarrow> x < 2 ^ Suc n \<Longrightarrow> exponent_up n x = \<lfloor>log 2 x\<rfloor>"
proof (induction n arbitrary: x)
  case 0
  then show ?case by (simp add: floor_log2_unit)
next
  case (Suc n)
  show ?case
  proof (cases "2 \<le> x")
    case True
    have "exponent_up n (x / 2) = \<lfloor>log 2 (x / 2)\<rfloor>"
      using True Suc.prems(2) by (intro Suc.IH) simp_all
    then show ?thesis using True Suc.prems(1) by (simp add: floor_log2_half)
  next
    case False
    then show ?thesis using Suc.prems(1) by (simp add: floor_log2_unit)
  qed
qed

lemma exponent_down_one: "1 \<le> x \<Longrightarrow> exponent_down n x = 0"
  by (cases n) simp_all

lemma exponent_down_log:
  "0 < x \<Longrightarrow> x < 1 \<Longrightarrow> exponent_down n x = max \<lfloor>log 2 x\<rfloor> (- int n)"
proof (induction n arbitrary: x)
  case 0
  have "log 2 x < 0" using 0 by simp
  then have "\<lfloor>log 2 x\<rfloor> < 0" by linarith
  then show ?case by simp
next
  case (Suc n)
  show ?case
  proof (cases "2 * x < 1")
    case True
    have "exponent_down n (2 * x) = max \<lfloor>log 2 (2 * x)\<rfloor> (- int n)"
      using True Suc.prems(1) by (intro Suc.IH) simp_all
    then show ?thesis using Suc.prems by (simp add: floor_log2_double)
  next
    case False
    then have h: "1 \<le> 2 * x" "2 * x < 2" using Suc.prems(2) by simp_all
    have "\<lfloor>log 2 (2 * x)\<rfloor> = 0" using h by (rule floor_log2_unit)
    then have "\<lfloor>log 2 x\<rfloor> = - 1" using floor_log2_double [OF Suc.prems(1)] by simp
    then show ?thesis using Suc.prems(2) h(1) by (simp add: exponent_down_one)
  qed
qed

lemma float_exponent_log:
  assumes "x \<noteq> 0" "\<bar>x\<bar> < 2 ^ 1024"
  shows "float_exponent x = max \<lfloor>log 2 \<bar>x\<bar>\<rfloor> (- 1022)"
proof (cases "1 \<le> \<bar>x\<bar>")
  case True
  have "exponent_up 1023 \<bar>x\<bar> = \<lfloor>log 2 \<bar>x\<bar>\<rfloor>"
    using True assms(2) by (intro exponent_up_log) simp_all
  moreover have "0 \<le> log 2 \<bar>x\<bar>" using True by simp
  then have "max \<lfloor>log 2 \<bar>x\<bar>\<rfloor> (- 1022) = \<lfloor>log 2 \<bar>x\<bar>\<rfloor>" by linarith
  ultimately show ?thesis using True by (simp add: float_exponent_def)
next
  case False
  have "exponent_down 1022 \<bar>x\<bar> = max \<lfloor>log 2 \<bar>x\<bar>\<rfloor> (- int 1022)"
    using False assms(1) by (intro exponent_down_log) simp_all
  then show ?thesis using False by (simp add: float_exponent_def)
qed

lemma round53_log:
  assumes "x \<noteq> 0" "\<bar>x\<bar> < 2 ^ 1024"
  shows "round53 x = 2 powr of_int (max \<lfloor>log 2 \<bar>x\<bar>\<rfloor> (- 1022) - 52)
           * of_int (round_even (x / 2 powr of_int (max \<lfloor>log 2 \<bar>x\<bar>\<rfloor> (- 1022) - 52)))"
  unfolding round53_def Let_def pow2_powr float_exponent_log [OF assms] ..


lemma round_even_nearest:
  assumes "of_int n - 1 / 2 < x" "x < of_int n + 1 / 2"
  shows "round_even x = n"
proof -
  have "\<lfloor>x\<rfloor> = n \<or> \<lfloor>x\<rfloor> = n - 1" using assms by linarith
  then show ?thesis
  proof
    assume f: "\<lfloor>x\<rfloor> = n"
    then have "x - of_int \<lfloor>x\<rfloor> < 1 / 2" using assms by simp
    then show ?thesis using f by (simp add: round_even_def Let_def)
  next
    assume f: "\<lfloor>x\<rfloor> = n - 1"
    then have "x - of_int \<lfloor>x\<rfloor> > 1 / 2" using assms by simp
    then show ?thesis using f by (simp add: round_even_def Let_def)
  qed
qed

lemma round_even_nonneg: "0 \<le> x \<Longrightarrow> 0 \<le> round_even x"
  using round_even_mono [of 0 x] by simp

lemma round53_zero [simp]: "round53 0 = 0"
  by (simp add: round53_def)


lemma round53_nonneg: "0 \<le> x \<Longrightarrow> 0 \<le> round53 x"
  using pow2_pos by (simp add: round53_def Let_def round_even_nonneg less_imp_le)

lemma round53_eval:
  assumes "2 powr of_int e \<le> \<bar>x\<bar>" "\<bar>x\<bar> < 2 powr of_int (e + 1)" "- 1022 \<le> e" "e \<le> 1023"
  shows "round53 x = 2 powr of_int (e - 52) * of_int (round_even (x / 2 powr of_int (e - 52)))"
proof -
  have pos: "0 < \<bar>x\<bar>" using assms(1) by (smt (verit) powr_gt_zero)
  have "of_int e \<le> log 2 \<bar>x\<bar>" using assms(1) pos le_log_iff [of 2 "\<bar>x\<bar>" "of_int e"] by simp
  moreover have "log 2 \<bar>x\<bar> < of_int (e + 1)"
    using assms(2) pos log_less_iff [of 2 "\<bar>x\<bar>" "of_int (e + 1)"] by simp
  ultimately have fl: "\<lfloor>log 2 \<bar>x\<bar>\<rfloor> = e" by linarith
  have "(2::real) powr of_int (e + 1) \<le> 2 powr real (1024::nat)"
    using assms(4) by (intro powr_mono) simp_all
  also have "\<dots> = 2 ^ 1024" by (rule powr_realpow) simp
  finally have r: "\<bar>x\<bar> < 2 ^ 1024" using assms(2) by linarith
  have "x \<noteq> 0" using pos by simp
  from round53_log [OF this r] show ?thesis using assms(3) by (simp add: fl max_def)
qed






lemma float_0_1_value: "float_0_1 = 3602879701896397 / 36028797018963968"
  unfolding float_0_1_def by code_simp

lemma float_0_01_value: "float_0_01 = 5764607523034235 / 576460752303423488"
  unfolding float_0_01_def by code_simp

lemma overflow_bound_pos: "0 < overflow_bound"
proof -
  have "(2::real) ^ 970 < 2 ^ 1024" by (rule power_strict_increasing) simp_all
  then show ?thesis by (simp add: overflow_bound_def)
qed




lemma float_mul_zero [simp]: "float_mul 0 k = Finite 0"
  using overflow_bound_pos by (simp add: float_mul_def)

lemma int_true_div_zero: "t \<noteq> 0 \<Longrightarrow> int_true_div 0 t = Inr 0"
  using overflow_bound_pos by (simp add: int_true_div_def)

lemma float_0_1_pos: "0 < float_0_1"
  by (simp add: float_0_1_value)

lemma float_0_01_pos: "0 < float_0_01"
  by (simp add: float_0_01_value)

lemma int_gt_float_nonneg:
  assumes "n \<le> 0" "0 \<le> x" "0 \<le> y"
  shows "\<not> int_gt_float n (float_mul x y)"
proof -
  have p: "0 \<le> x * y" using assms(2,3) by simp
  have pos: "0 < overflow_bound" by (rule overflow_bound_pos)
  show ?thesis
  proof (cases "overflow_bound \<le> x * y")
    case True
    then show ?thesis by (simp add: float_mul_def int_gt_float_def)
  next
    case False
    moreover have "\<not> x * y \<le> - overflow_bound" using p pos by linarith
    moreover have "0 \<le> round53 (x * y)" using p by (rule round53_nonneg)
    ultimately show ?thesis using assms(1) by (simp add: float_mul_def int_gt_float_def)
  qed
qed

lemma overflow_bound_large: "2 ^ 64 < overflow_bound"
proof -
  have "(2::real) ^ 64 + 2 ^ 970 \<le> 2 ^ 970 + 2 ^ 970"
    using power_increasing [of 64 970 "2::real"] by simp
  also have "\<dots> = 2 ^ 971" by simp
  also have "\<dots> < 2 ^ 1024" by (rule power_strict_increasing) simp_all
  finally show ?thesis by (simp add: overflow_bound_def)
qed

lemma round53_1800: "round53 1800 = 1800"
proof -
  have r: "round_even (1800 / (2 powr of_int (10 - 52))) = 7916483719987200"
    by (rule round_even_nearest) (simp_all add: powr_minus_divide)
  have "round53 1800 = 2 powr of_int (10 - 52) * of_int (round_even (1800 / (2 powr of_int (10 - 52))))"
    by (rule round53_eval) (simp_all add: powr_minus_divide)
  then show ?thesis unfolding r by (simp add: powr_minus_divide)
qed

lemma collision_limit_1800: "float_mul (round53 1800) float_0_01 = Finite 18"
proof -
  define x :: real where "x = 1800 * (5764607523034235 / 576460752303423488)"
  have r: "round_even (x / (2 powr of_int (4 - 52))) = 5066549580791808"
    by (rule round_even_nearest) (simp_all add: x_def powr_minus_divide)
  have "round53 x = 2 powr of_int (4 - 52) * of_int (round_even (x / (2 powr of_int (4 - 52))))"
    by (rule round53_eval) (simp_all add: x_def powr_minus_divide)
  then have v: "round53 x = 18" unfolding r by (simp add: powr_minus_divide)
  have "x < 2 ^ 64" "- (2 ^ 64) < x" by (simp_all add: x_def)
  then have b: "\<not> overflow_bound \<le> x" "\<not> x \<le> - overflow_bound"
    using overflow_bound_large by linarith+
  show ?thesis
    using b v by (simp add: float_mul_def round53_1800 float_0_01_value x_def)
qed

lemma error_rate_rounded:
  "int_true_div (10 ^ 16 + 1) (10 ^ 19) = Inr (4611686018427388 / 2 ^ 62)
   \<and> float_mul (4611686018427388 / 2 ^ 62) 100 = Finite float_0_1
   \<and> real_of_int (10 ^ 16 + 1) / real_of_int (10 ^ 19) * 100 > 1 / 10"
proof -
  define x :: real where "x = (10 ^ 16 + 1) / 10 ^ 19"
  have r: "round_even (x / (2 powr of_int (- 10 - 52))) = 4611686018427388"
    by (rule round_even_nearest) (simp_all add: x_def powr_minus_divide)
  have "round53 x = 2 powr of_int (- 10 - 52) * of_int (round_even (x / (2 powr of_int (- 10 - 52))))"
    by (rule round53_eval) (simp_all add: x_def powr_minus_divide)
  then have v: "round53 x = 4611686018427388 / 2 ^ 62" unfolding r by (simp add: powr_minus_divide)
  have "\<bar>x\<bar> < 2 ^ 64" by (simp add: x_def)
  then have b: "\<not> overflow_bound \<le> \<bar>x\<bar>" using overflow_bound_large by linarith
  have 1: "int_true_div (10 ^ 16 + 1) (10 ^ 19) = Inr (4611686018427388 / 2 ^ 62)"
    using b v by (simp add: int_true_div_def x_def)
  define y :: real where "y = 4611686018427388 / 2 ^ 62 * 100"
  have ry: "round_even (y / (2 powr of_int (- 4 - 52))) = 7205759403792794"
    by (rule round_even_nearest) (simp_all add: y_def powr_minus_divide)
  have "round53 y = 2 powr of_int (- 4 - 52) * of_int (round_even (y / (2 powr of_int (- 4 - 52))))"
    by (rule round53_eval) (simp_all add: y_def powr_minus_divide)
  then have vy: "round53 y = float_0_1" unfolding ry by (simp add: powr_minus_divide float_0_1_value)
  have "y < 2 ^ 64" "- (2 ^ 64) < y" by (simp_all add: y_def)
  then have bnd: "\<not> overflow_bound \<le> y" "\<not> y \<le> - overflow_bound"
    using overflow_bound_large by linarith+
  have 2: "float_mul (4611686018427388 / 2 ^ 62) 100 = Finite float_0_1"
    using bnd vy by (simp add: float_mul_def y_def)
  have 3: "real_of_int (10 ^ 16 + 1) / real_of_int (10 ^ 19) * 100 > 1 / 10" by simp
  show ?thesis using 1 2 3 by blast
qed

section \<open>Properties of parse\_netstat\_interface\<close>

lemma py_int_only_ValueError: "py_int b s = Inl e \<Longrightarrow> e = ValueError"
  unfolding py_int_def Let_def by (simp split: if_splits option.splits)

lemma int_token_Inr: "int_token w \<Longrightarrow> py_int 10 w = Inr (int_of_token w)"
  by (cases "py_int 10 w") (auto simp: int_token_def int_of_token_def)

lemma int_token_Inl: "\<not> int_token w \<Longrightarrow> py_int 10 w = Inl ValueError"
  by (cases "py_int 10 w") (auto simp: int_token_def dest: py_int_only_ValueError)

lemma netstat_row_accepted:
  assumes "10 \<le> length parts"
    and "int_token (parts ! 4)" "int_token (parts ! 5)" "int_token (parts ! 6)"
    and "int_token (parts ! 7)" "int_token (parts ! 8)" "int_token (parts ! 9)"
    and "length parts = 10 \<or> int_token (parts ! 10)"
  shows "netstat_row n parts = Inr (row_metrics n parts)"
  using assms
  by (auto simp: netstat_row_def err_bind_def py_index_def row_metrics_def int_token_Inr)

lemma netstat_row_rejected:
  assumes "10 \<le> length parts"
    and "\<not> (int_token (parts ! 4) \<and> int_token (parts ! 5) \<and> int_token (parts ! 6) \<and>
         int_token (parts ! 7) \<and> int_token (parts ! 8) \<and> int_token (parts ! 9) \<and>
         (length parts = 10 \<or> int_token (parts ! 10)))"
  shows "netstat_row n parts = Inl ValueError"
proof -
  have step: "\<And>w f. err_bind (py_int 10 w) f =
      (if int_token w then f (int_of_token w) else Inl ValueError)"
    by (simp add: err_bind_def int_token_Inr int_token_Inl)
  have idx: "\<And>k f. k < length parts \<Longrightarrow>
      err_bind (err_bind (py_index parts k) (py_int 10)) f = err_bind (py_int 10 (parts ! k)) f"
    by (simp add: err_bind_def py_index_def)
  show ?thesis
    using assms unfolding netstat_row_def
    by (simp add: idx step) (auto simp: err_bind_def py_index_def int_token_Inl)
qed

lemma netstat_row_result:
  assumes "10 \<le> length parts"
  shows "netstat_row n parts =
     (if int_token (parts ! 4) \<and> int_token (parts ! 5) \<and> int_token (parts ! 6) \<and>
         int_token (parts ! 7) \<and> int_token (parts ! 8) \<and> int_token (parts ! 9) \<and>
         (length parts = 10 \<or> int_token (parts ! 10))
      then Inr (row_metrics n parts) else Inl ValueError)"
  using assms netstat_row_accepted [of parts n] netstat_row_rejected [of parts n]
  by (simp only: split: if_split) blast

lemma netstat_loop_find:
  "netstat_loop n ls =
     Inr (case find (row_accepted n) ls of None \<Rightarrow> None
          | Some line \<Rightarrow> Some (row_metrics n (py_split line)))"
proof (induction ls)
  case Nil
  show ?case by simp
next
  case (Cons l ls)
  show ?case
  proof (cases "startswith n l \<and> 10 \<le> length (py_split l)")
    case True
    note row = netstat_row_result [of "py_split l" n]
    show ?thesis
    proof (cases "row_accepted n l")
      case acc: True
      then have "netstat_row n (py_split l) = Inr (row_metrics n (py_split l))"
        using True row by (simp add: row_accepted_def Let_def)
      then show ?thesis using True acc by simp
    next
      case rej: False
      then have "netstat_row n (py_split l) = Inl ValueError"
        using True row by (simp add: row_accepted_def Let_def)
      then show ?thesis using True rej Cons by simp
    qed
  next
    case False
    then have "\<not> row_accepted n l" by (auto simp: row_accepted_def Let_def)
    then show ?thesis
      using False Cons by auto
  qed
qed

text \<open>
  Claim C10. For every output text and interface name, \<open>parse_netstat_interface\<close>
  returns (it never raises) the metrics of the first line that starts with the
  interface name, has at least 10 white-space separated tokens, and whose tokens 4 to 9,
  and token 10 when there is one, are accepted by \<^verbatim>\<open>int\<close>. When that row has exactly
  10 tokens the record's collision count is 0, and when there is no such row the result
  is \<^verbatim>\<open>None\<close>.
\<close>

theorem parse_netstat_interface_first_accepted_row:
  "parse_netstat_interface output n =
     Inr (case find (row_accepted n) (split_on CHR 0x0A (py_strip output)) of
            None \<Rightarrow> None
          | Some line \<Rightarrow> Some (row_metrics n (py_split line)))
   \<and> (\<forall>line. find (row_accepted n) (split_on CHR 0x0A (py_strip output)) = Some line
          \<and> length (py_split line) = 10
        \<longrightarrow> (\<exists>m. parse_netstat_interface output n = Inr (Some m) \<and> collisions m = 0))
   \<and> (find (row_accepted n) (split_on CHR 0x0A (py_strip output)) = None
        \<longrightarrow> parse_netstat_interface output n = Inr None)"
  by (simp add: parse_netstat_interface_def netstat_loop_find row_metrics_def)

theorem parse_netstat_interface_first_accepted_row_witness:
  "find (row_accepted ''en0'')
     (split_on CHR 0x0A (py_strip
        ''Name Mtu Net Addr Ipkts Ierrs Ibytes Opkts Oerrs Obytes Coll\<newline>en0 1500 <Link#4> aa:bb 100 0 2000 50 x 1000 7\<newline>en0 1500 <Link#4> aa:bb 100 0 2000 50 0 1000\<newline>''))
     = Some ''en0 1500 <Link#4> aa:bb 100 0 2000 50 0 1000''
   \<and> length (py_split ''en0 1500 <Link#4> aa:bb 100 0 2000 50 0 1000'') = 10
   \<and> (\<exists>m. parse_netstat_interface
        ''Name Mtu Net Addr Ipkts Ierrs Ibytes Opkts Oerrs Obytes Coll\<newline>en0 1500 <Link#4> aa:bb 100 0 2000 50 x 1000 7\<newline>en0 1500 <Link#4> aa:bb 100 0 2000 50 0 1000\<newline>''
        ''en0'' = Inr (Some m) \<and> collisions m = 0)
   \<and> find (row_accepted ''en1'') (split_on CHR 0x0A (py_strip ''en0 1500'')) = None
   \<and> parse_netstat_interface ''en0 1500'' ''en1'' = Inr None"
proof -
  have f: "find (row_accepted ''en0'')
     (split_on CHR 0x0A (py_strip
        ''Name Mtu Net Addr Ipkts Ierrs Ibytes Opkts Oerrs Obytes Coll\<newline>en0 1500 <Link#4> aa:bb 100 0 2000 50 x 1000 7\<newline>en0 1500 <Link#4> aa:bb 100 0 2000 50 0 1000\<newline>''))
     = Some ''en0 1500 <Link#4> aa:bb 100 0 2000 50 0 1000''"
    by code_simp
  have l: "length (py_split ''en0 1500 <Link#4> aa:bb 100 0 2000 50 0 1000'') = 10"
    by code_simp
  have g: "find (row_accepted ''en1'') (split_on CHR 0x0A (py_strip ''en0 1500'')) = None"
    by code_simp
  show ?thesis
    using f l g
      parse_netstat_interface_first_accepted_row
        [of "''Name Mtu Net Addr Ipkts Ierrs Ibytes Opkts Oerrs Obytes Coll\<newline>en0 1500 <Link#4> aa:bb 100 0 2000 50 x 1000 7\<newline>en0 1500 <Link#4> aa:bb 100 0 2000 50 0 1000\<newline>''" "''en0''"]
      parse_netstat_interface_first_accepted_row [of "''en0 1500''" "''en1''"]
    by blast
qed

section \<open>Properties of assess\_network\_health\<close>

lemma score_penalty [simp]: "score (penalty n st) = score st - n"
  by (simp add: penalty_def)

lemma score_add_warning [simp]: "score (add_warning m st) = score st"
  by (simp add: add_warning_def)

lemma score_add_error [simp]: "score (add_error m st) = score st"
  by (simp add: add_error_def)

lemma score_add_recommendation [simp]: "score (add_recommendation m st) = score st"
  by (simp add: add_recommendation_def)


lemma check_metrics_overflow:
  "metrics_overflow m \<Longrightarrow> check_metrics m st = Inl OverflowError"
  by (cases m)
    (auto simp: metrics_overflow_def check_metrics_def Let_def err_bind_def int_true_div_def
      float_of_int_def)

lemma check_metrics_returns:
  assumes "\<not> metrics_overflow m"
  shows "\<exists>st'. check_metrics m st = Inr st' \<and> score st' = score st - metrics_penalty m"
proof (cases m)
  case None
  then show ?thesis by (simp add: check_metrics_def metrics_penalty_def)
next
  case (Some a)
  show ?thesis
  proof (cases "packets_in a + packets_out a > 0")
    case False
    then show ?thesis using Some by (simp add: check_metrics_def metrics_penalty_def Let_def)
  next
    case True
    from assms Some True
    have d: "int_true_div (errors_in a + errors_out a) (packets_in a + packets_out a)
               = Inr (round53 (of_int (errors_in a + errors_out a) / of_int (packets_in a + packets_out a)))"
      and f: "float_of_int (packets_in a + packets_out a)
               = Inr (round53 (of_int (packets_in a + packets_out a)))"
      by (simp_all add: metrics_overflow_def int_true_div_def float_of_int_def)
    show ?thesis
      using Some True
      by (simp add: check_metrics_def metrics_penalty_def error_rate_of_def collision_limit_def
          error_rate_penalty_def Let_def err_bind_def d f)
  qed
qed



lemma check_ping_present:
  "avg_rtt p = Some r \<Longrightarrow> \<exists>st'. check_ping p st = Inr st' \<and> score st' = score st - ping_penalty p"
  by (simp add: check_ping_def ping_penalty_def Let_def)

lemma check_ping_absent: "avg_rtt p = None \<Longrightarrow> check_ping p st = Inl TypeError"
  by (simp add: check_ping_def Let_def)


lemma ping_loop_absent:
  "\<not> list_all (\<lambda>p. avg_rtt p \<noteq> None) rs \<Longrightarrow> ping_loop rs st = Inl TypeError"
proof (induction rs arbitrary: st)
  case Nil
  then show ?case by simp
next
  case (Cons p rs)
  show ?case
  proof (cases "avg_rtt p")
    case None
    then show ?thesis by (simp add: check_ping_absent)
  next
    case (Some r)
    from check_ping_present [OF Some, of st] obtain st1 where "check_ping p st = Inr st1" by blast
    then show ?thesis using Cons Some by simp
  qed
qed


lemma check_pings_absent: "\<not> rtt_present ps \<Longrightarrow> check_pings ps st = Inl TypeError"
  by (cases ps) (simp_all add: check_pings_def rtt_present_def ping_loop_absent)


lemma assess_overflow:
  "metrics_overflow m \<Longrightarrow> assess_network_health band from_score i m w ps s = Inl OverflowError"
  by (simp add: assess_network_health_def Let_def err_bind_def check_metrics_overflow)

lemma assess_raises:
  assumes "\<not> rtt_present ps" "\<not> metrics_overflow m"
  shows "assess_network_health band from_score i m w ps s = Inl TypeError"
proof -
  define st1 where "st1 = check_interface i
      \<lparr>score = 100, warnings = [], errors = [], recommendations = []\<rparr>"
  from check_metrics_returns [OF assms(2), of st1] obtain st2
    where st2: "check_metrics m st1 = Inr st2" by blast
  show ?thesis
    using st2
    by (simp add: assess_network_health_def Let_def err_bind_def st1_def [symmetric]
        check_pings_absent [OF assms(1)])
qed













lemma rounded_metrics_penalty:
  "metrics_penalty (Some rounded_metrics) = 0
   \<and> \<not> metrics_overflow (Some rounded_metrics)
   \<and> real_of_int (errors_in rounded_metrics + errors_out rounded_metrics)
       / real_of_int (packets_in rounded_metrics + packets_out rounded_metrics) * 100 > 1 / 10"
proof -
  have d: "int_true_div (10 ^ 16 + 1) (10 ^ 19) = Inr (4611686018427388 / 2 ^ 62)"
    and m: "float_mul (4611686018427388 / 2 ^ 62) 100 = Finite float_0_1"
    and x: "real_of_int (10 ^ 16 + 1) / real_of_int (10 ^ 19) * 100 > 1 / 10"
    using error_rate_rounded by blast+
  have b: "\<not> overflow_bound \<le> 10 ^ 19" "\<not> overflow_bound \<le> (10 ^ 16 + 1) / 10 ^ 19"
    using overflow_bound_large by simp_all
  have f: "float_of_int (10 ^ 19) = Inr (round53 (10 ^ 19))"
    using b(1) by (simp add: float_of_int_def)
  have c: "\<not> int_gt_float 0 (float_mul (round53 (10 ^ 19)) float_0_01)"
  proof (rule int_gt_float_nonneg)
    show "0 \<le> round53 (10 ^ 19)" by (intro round53_nonneg) simp
    show "0 \<le> float_0_01" using float_0_01_pos by simp
  qed simp
  have l: "\<not> 1 < float_0_1" by (simp add: float_0_1_value)
  have e: "error_rate_of rounded_metrics = Inr (Finite float_0_1)"
    using d m by (simp add: error_rate_of_def rounded_metrics_def err_bind_def)
  have k: "collision_limit rounded_metrics = Inr (float_mul (round53 (10 ^ 19)) float_0_01)"
    using f by (simp add: collision_limit_def rounded_metrics_def err_bind_def)
  have z: "collisions rounded_metrics = 0" "0 < packets_in rounded_metrics + packets_out rounded_metrics"
    by (simp_all add: rounded_metrics_def)
  have 1: "metrics_penalty (Some rounded_metrics) = 0"
    using c l z by (simp add: metrics_penalty_def e k error_rate_penalty_def float_gt_def)
  have 2: "\<not> metrics_overflow (Some rounded_metrics)"
    using b by (simp add: metrics_overflow_def rounded_metrics_def)
  have 3: "real_of_int (errors_in rounded_metrics + errors_out rounded_metrics)
       / real_of_int (packets_in rounded_metrics + packets_out rounded_metrics) * 100 > 1 / 10"
    using x by (simp add: rounded_metrics_def)
  show ?thesis using 1 2 3 by blast
qed

text \<open>
  Claim C3. The claim says that a bundle holding the record of a failed ping run
  (nothing received, loss 100, round-trip fields absent) still gets a verdict. The
  code compares \<^verbatim>\<open>result.avg_rtt > 100\<close> without a test for \<^verbatim>\<open>None\<close>: whatever
  the other inputs and the other ping results are, a list that holds the record of an
  unreachable target makes the function raise, and no verdict is returned. The
  exception is \<open>TypeError\<close>, unless the metrics check before it has raised
  \<open>OverflowError\<close> on counters too large for a float.
\<close>

theorem assess_raises_on_unreachable_target:
  "assess_network_health band from_score i m w (Some (before @ unreachable_result h n # after)) s
     = Inl (if metrics_overflow m then OverflowError else TypeError)"
proof (cases "metrics_overflow m")
  case True
  then show ?thesis by (simp add: assess_overflow)
next
  case False
  have "\<not> rtt_present (Some (before @ unreachable_result h n # after))"
    by (simp add: rtt_present_def unreachable_result_def)
  then show ?thesis using False by (simp add: assess_raises)
qed

text \<open>
  Claim C8. For an interface whose status is "inactive", with metrics, wireless
  information, ping results and speed test all absent, the verdict has no warning,
  the one error "Interface is not active", one recommendation, and score 50.
\<close>

theorem assess_inactive_interface_alone:
  assumes "status i = ''inactive''"
  shows "assess_network_health band from_score i None None None None =
           Inr \<lparr>score = 50, warnings = [], errors = [[Txt ''Interface is not active'']],
                recommendations = [[Txt ''Check interface configuration and ensure it's enabled'']],
                overall = from_score 50\<rparr>"
  using assms
  by (simp add: assess_network_health_def check_interface_def check_metrics_def check_wifi_def
      check_pings_def check_speed_def err_bind_def penalty_def add_error_def
      add_recommendation_def Let_def)

theorem assess_inactive_interface_alone_witness:
  "status (example_interface\<lparr>status := ''inactive''\<rparr>) = ''inactive''
   \<and> assess_network_health example_band (\<lambda>n. n) (example_interface\<lparr>status := ''inactive''\<rparr>)
        None None None None =
       Inr \<lparr>score = 50, warnings = [], errors = [[Txt ''Interface is not active'']],
            recommendations = [[Txt ''Check interface configuration and ensure it's enabled'']],
            overall = 50\<rparr>"
  using assess_inactive_interface_alone [of "example_interface\<lparr>status := ''inactive''\<rparr>" example_band "\<lambda>n. n"]
  by simp

lemma check_metrics_clean:
  assumes "errors_in m = 0" "errors_out m = 0" "collisions m = 0"
    and "real_of_int (packets_in m + packets_out m) < overflow_bound"
  shows "check_metrics (Some m) st = Inr st"
proof (cases "packets_in m + packets_out m > 0")
  case False
  then show ?thesis by (simp add: check_metrics_def Let_def)
next
  case True
  have d: "int_true_div (errors_in m + errors_out m) (packets_in m + packets_out m) = Inr 0"
    using True assms(1,2) int_true_div_zero [of "packets_in m + packets_out m"] by simp
  have f: "float_of_int (packets_in m + packets_out m)
             = Inr (round53 (of_int (packets_in m + packets_out m)))"
    using True assms(4) by (simp add: float_of_int_def)
  have c: "\<not> int_gt_float (collisions m)
               (float_mul (round53 (of_int (packets_in m + packets_out m))) float_0_01)"
  proof (rule int_gt_float_nonneg)
    show "collisions m \<le> 0" using assms(3) by simp
    show "0 \<le> round53 (of_int (packets_in m + packets_out m))"
      using True by (intro round53_nonneg) simp
    show "0 \<le> float_0_01" using float_0_01_pos by simp
  qed
  show ?thesis
    using True c float_0_1_pos
    by (simp add: check_metrics_def Let_def err_bind_def d f float_gt_def)
qed

text \<open>
  Claim C7, as amended. An active interface, metrics with error counters and collision
  counter zero and a packet count within the range of a float, wireless information
  with RSSI -55, SNR 40, channel width 80 on the 5 GHz band and a PHY mode that names
  neither 802.11b nor 802.11g, one ping target with loss 0, average round-trip time 20
  and jitter 2, and a speed test of 100 down and 20 up: the verdict has no warning, no
  error, no recommendation, and score 100. The other fields (addresses, byte counts,
  SSID, host, ...) are arbitrary.
\<close>

theorem assess_healthy_bundle:
  assumes "status i = ''active''"
    and "errors_in m = 0" "errors_out m = 0" "collisions m = 0"
    and "real_of_int (packets_in m + packets_out m) < overflow_bound"
    and "rssi w = - 55" "snr w = 40" "channel_width w = 80" "band w = ''5GHz''"
    and "\<not> contains ''802.11b'' (phy_mode w)" "\<not> contains ''802.11g'' (phy_mode w)"
    and "packet_loss p = 0" "avg_rtt p = Some 20" "jitter p = 2"
    and "download_mbps s = 100" "upload_mbps s = 20"
  shows "\<exists>h. assess_network_health band from_score i (Some m) (Some w) (Some [p]) (Some s) = Inr h
           \<and> warnings h = [] \<and> errors h = [] \<and> recommendations h = [] \<and> score h = 100"
proof -
  let ?st0 = "\<lparr>score = 100, warnings = [], errors = [], recommendations = []\<rparr>"
  have 1: "check_interface i ?st0 = ?st0"
    using assms(1) by (simp add: check_interface_def)
  have 2: "check_metrics (Some m) ?st0 = Inr ?st0"
    using assms(2-5) by (rule check_metrics_clean)
  have 3: "check_wifi band (Some w) ?st0 = ?st0"
    using assms(6-11) by (simp add: check_wifi_def Let_def)
  have 4: "check_pings (Some [p]) ?st0 = Inr ?st0"
    using assms(12-14) by (simp add: check_pings_def check_ping_def Let_def)
  have 5: "check_speed (Some s) ?st0 = ?st0"
    using assms(15,16) by (simp add: check_speed_def Let_def)
  show ?thesis
    by (simp add: assess_network_health_def Let_def 1 2 3 4 5 err_bind_def)
qed

theorem assess_healthy_bundle_witness:
  "status example_interface = ''active''
   \<and> errors_in example_metrics = 0 \<and> errors_out example_metrics = 0 \<and> collisions example_metrics = 0
   \<and> real_of_int (packets_in example_metrics + packets_out example_metrics) < overflow_bound
   \<and> rssi example_wifi = - 55 \<and> snr example_wifi = 40 \<and> channel_width example_wifi = 80
   \<and> example_band example_wifi = ''5GHz''
   \<and> \<not> contains ''802.11b'' (phy_mode example_wifi)
   \<and> \<not> contains ''802.11g'' (phy_mode example_wifi)
   \<and> packet_loss example_ping = 0 \<and> avg_rtt example_ping = Some 20 \<and> jitter example_ping = 2
   \<and> download_mbps example_speed = 100 \<and> upload_mbps example_speed = 20
   \<and> (\<exists>h. assess_network_health example_band (\<lambda>n. n) example_interface (Some example_metrics)
             (Some example_wifi) (Some [example_ping]) (Some example_speed) = Inr h
           \<and> warnings h = [] \<and> errors h = [] \<and> recommendations h = [] \<and> score h = 100)"
proof -
  have b: "\<not> contains ''802.11b'' (phy_mode example_wifi)"
    by (simp add: example_wifi_def startswith_def)
  have g: "\<not> contains ''802.11g'' (phy_mode example_wifi)"
    by (simp add: example_wifi_def startswith_def)
  have r: "real_of_int (packets_in example_metrics + packets_out example_metrics) < overflow_bound"
    using overflow_bound_large by (simp add: example_metrics_def)
  have h: "status example_interface = ''active''"
    "errors_in example_metrics = 0" "errors_out example_metrics = 0" "collisions example_metrics = 0"
    "rssi example_wifi = - 55" "snr example_wifi = 40" "channel_width example_wifi = 80"
    "example_band example_wifi = ''5GHz''"
    "packet_loss example_ping = 0" "avg_rtt example_ping = Some 20" "jitter example_ping = 2"
    "download_mbps example_speed = 100" "upload_mbps example_speed = 20"
    by (simp_all add: example_interface_def example_metrics_def example_wifi_def example_band_def
        example_ping_def example_speed_def jitter_def)
  from assess_healthy_bundle [of example_interface example_metrics example_wifi example_band
      example_ping example_speed "\<lambda>n. n", OF h(1-4) r h(5-8) b g h(9-13)]
  show ?thesis using h b g r by blast
qed

lemma check_metrics_collisions_example:
  "check_metrics (Some (example_metrics\<lparr>collisions := 100\<rparr>)) st =
     Inr (add_recommendation [Txt ''Network may be congested'']
            (add_warning [Txt ''High collision rate detected''] (penalty 5 st)))"
proof -
  have d: "int_true_div 0 1800 = Inr 0" by (rule int_true_div_zero) simp
  have f: "float_of_int 1800 = Inr (round53 1800)"
    using overflow_bound_large by (simp add: float_of_int_def)
  show ?thesis
    using float_0_1_pos
    by (simp add: check_metrics_def example_metrics_def Let_def err_bind_def d f
        collision_limit_1800 float_gt_def int_gt_float_def)
qed

text \<open>
  Claim C7 as stated fails: the values it lists leave the collision counter and the PHY
  mode open. With 100 collisions over 1800 packets the verdict has the warning "High
  collision rate detected" and score 95; with the PHY mode 802.11g it has the warning
  "Using older WiFi standard: 802.11g".
\<close>

theorem assess_listed_values_with_warning:
  "status example_interface = ''active''
   \<and> errors_in (example_metrics\<lparr>collisions := 100\<rparr>) = 0
   \<and> errors_out (example_metrics\<lparr>collisions := 100\<rparr>) = 0
   \<and> rssi (example_wifi\<lparr>phy_mode := ''802.11g''\<rparr>) = - 55
   \<and> snr (example_wifi\<lparr>phy_mode := ''802.11g''\<rparr>) = 40
   \<and> channel_width (example_wifi\<lparr>phy_mode := ''802.11g''\<rparr>) = 80
   \<and> example_band (example_wifi\<lparr>phy_mode := ''802.11g''\<rparr>) = ''5GHz''
   \<and> packet_loss example_ping = 0 \<and> avg_rtt example_ping = Some 20 \<and> jitter example_ping = 2
   \<and> download_mbps example_speed = 100 \<and> upload_mbps example_speed = 20
   \<and> assess_network_health example_band (\<lambda>n. n) example_interface
         (Some (example_metrics\<lparr>collisions := 100\<rparr>)) (Some example_wifi) (Some [example_ping])
         (Some example_speed)
       = Inr \<lparr>score = 95, warnings = [[Txt ''High collision rate detected'']], errors = [],
              recommendations = [[Txt ''Network may be congested'']], overall = 95\<rparr>
   \<and> assess_network_health example_band (\<lambda>n. n) example_interface (Some example_metrics)
         (Some (example_wifi\<lparr>phy_mode := ''802.11g''\<rparr>)) (Some [example_ping])
         (Some example_speed)
       = Inr \<lparr>score = 100, warnings = [[Txt ''Using older WiFi standard: '', Txt ''802.11g'']],
              errors = [],
              recommendations = [[Txt ''Upgrade to WiFi 5 (802.11ac) or WiFi 6 (802.11ax)'']],
              overall = 100\<rparr>"
proof -
  let ?st0 = "\<lparr>score = 100, warnings = [], errors = [], recommendations = []\<rparr>"
  have h: "status example_interface = ''active''"
    "errors_in (example_metrics\<lparr>collisions := 100\<rparr>) = 0"
    "errors_out (example_metrics\<lparr>collisions := 100\<rparr>) = 0"
    "rssi (example_wifi\<lparr>phy_mode := ''802.11g''\<rparr>) = - 55"
    "snr (example_wifi\<lparr>phy_mode := ''802.11g''\<rparr>) = 40"
    "channel_width (example_wifi\<lparr>phy_mode := ''802.11g''\<rparr>) = 80"
    "example_band (example_wifi\<lparr>phy_mode := ''802.11g''\<rparr>) = ''5GHz''"
    "packet_loss example_ping = 0" "avg_rtt example_ping = Some 20" "jitter example_ping = 2"
    "download_mbps example_speed = 100" "upload_mbps example_speed = 20"
    by (simp_all add: example_interface_def example_metrics_def example_wifi_def example_band_def
        example_ping_def example_speed_def jitter_def)
  have 1: "check_interface example_interface ?st0 = ?st0"
    by (simp add: check_interface_def example_interface_def)
  have 2: "check_metrics (Some example_metrics) ?st0 = Inr ?st0"
  proof (rule check_metrics_clean)
    show "real_of_int (packets_in example_metrics + packets_out example_metrics) < overflow_bound"
      using overflow_bound_large by (simp add: example_metrics_def)
  qed (simp_all add: example_metrics_def)
  have 3: "check_wifi example_band (Some example_wifi) st = st" for st
    by (simp add: check_wifi_def Let_def example_wifi_def example_band_def startswith_def)
  have w3: "check_wifi example_band (Some (example_wifi\<lparr>phy_mode := ''802.11g''\<rparr>)) st =
      add_recommendation [Txt ''Upgrade to WiFi 5 (802.11ac) or WiFi 6 (802.11ax)'']
        (add_warning [Txt ''Using older WiFi standard: '', Txt ''802.11g''] st)" for st
    by (simp add: check_wifi_def Let_def example_wifi_def example_band_def startswith_def)
  have 4: "check_pings (Some [example_ping]) st = Inr st" for st
    by (simp add: check_pings_def check_ping_def Let_def example_ping_def jitter_def)
  have 5: "check_speed (Some example_speed) st = st" for st
    by (simp add: check_speed_def Let_def example_speed_def)
  have a: "assess_network_health example_band (\<lambda>n. n) example_interface
         (Some (example_metrics\<lparr>collisions := 100\<rparr>)) (Some example_wifi) (Some [example_ping])
         (Some example_speed)
       = Inr \<lparr>score = 95, warnings = [[Txt ''High collision rate detected'']], errors = [],
              recommendations = [[Txt ''Network may be congested'']], overall = 95\<rparr>"
    by (simp add: assess_network_health_def Let_def 1 check_metrics_collisions_example 3 4 5
        err_bind_def penalty_def add_warning_def add_recommendation_def)
  have b: "assess_network_health example_band (\<lambda>n. n) example_interface (Some example_metrics)
         (Some (example_wifi\<lparr>phy_mode := ''802.11g''\<rparr>)) (Some [example_ping])
         (Some example_speed)
       = Inr \<lparr>score = 100, warnings = [[Txt ''Using older WiFi standard: '', Txt ''802.11g'']],
              errors = [],
              recommendations = [[Txt ''Upgrade to WiFi 5 (802.11ac) or WiFi 6 (802.11ax)'']],
              overall = 100\<rparr>"
    by (simp add: assess_network_health_def Let_def 1 2 w3 4 5 err_bind_def add_warning_def
        add_recommendation_def)
  show ?thesis using h a b by blast
qed









section \<open>Properties of parse\_airport\_info\<close>

text \<open>
  Claim C6. Whenever \<open>parse_airport_info\<close> returns a record, its \<open>snr\<close> field is
  \<open>rssi - noise\<close>, where \<open>rssi\<close> and \<open>noise\<close> are the integers extracted from the
  labels \<^verbatim>\<open>agrCtlRSSI\<close> and \<^verbatim>\<open>agrCtlNoise\<close> of the same text: the field is computed,
  never read from the input.
\<close>

theorem parse_airport_info_snr:
  assumes "parse_airport_info output = Some w"
  shows "snr w = rssi w - noise w
       \<and> rssi w = extract_int output ''agrCtlRSSI'' 0
       \<and> noise w = extract_int output ''agrCtlNoise'' 0"
  using assms
  by (auto simp: parse_airport_info_def Let_def split: if_splits)

theorem parse_airport_info_snr_witness:
  "parse_airport_info example_airport_output =
     Some \<lparr>ssid = ''home'', bssid = [], channel = 36, rssi = - 55, noise = - 95, snr = 40,
           tx_rate = 866, mcs_index = - 1, phy_mode = ''802.11ac'', security = [],
           channel_width = 0\<rparr>
   \<and> (40::int) = - 55 - (- 95)
   \<and> extract_int example_airport_output ''agrCtlRSSI'' 0 = - 55
   \<and> extract_int example_airport_output ''agrCtlNoise'' 0 = - 95"
proof -
  have e: "parse_airport_info example_airport_output =
     Some \<lparr>ssid = ''home'', bssid = [], channel = 36, rssi = - 55, noise = - 95, snr = 40,
           tx_rate = 866, mcs_index = - 1, phy_mode = ''802.11ac'', security = [],
           channel_width = 0\<rparr>"
    by code_simp
  from parse_airport_info_snr [OF e] show ?thesis using e by simp
qed

section \<open>Properties of parse\_ifconfig\<close>

lemma py_int_empty: "py_int b [] = Inl ValueError"
  by (simp add: py_int_def py_strip_def startswith_def Let_def)

lemma hex_slice_error:
  "err_bind (py_int 16 s) (\<lambda>n. Inr (py_str n)) = Inl e \<Longrightarrow> e = ValueError"
  by (cases "py_int 16 s") (auto simp: err_bind_def dest: py_int_only_ValueError)

lemma err_map_only_ValueError:
  assumes "\<And>x e. f x = Inl e \<Longrightarrow> e = ValueError" "err_map f xs = Inl e"
  shows "e = ValueError"
  using assms(2)
proof (induction xs arbitrary: e)
  case Nil
  then show ?case by simp
next
  case (Cons x xs)
  then show ?case
    using assms(1) by (auto split: sum.splits)
qed

lemma err_map_last_fails:
  assumes "\<And>x e. f x = Inl e \<Longrightarrow> e = ValueError" "f y = Inl ValueError"
  shows "err_map f (xs @ [y]) = Inl ValueError"
proof (induction xs)
  case Nil
  show ?case using assms(2) by simp
next
  case (Cons x xs)
  then show ?case
    using assms(1) [of x] by (auto split: sum.splits)
qed

lemma hex_to_dotted_short:
  assumes "length hex_mask \<le> 6"
  shows "hex_to_dotted hex_mask = Inl ValueError"
proof -
  let ?f = "\<lambda>i. err_bind (py_int 16 (take 2 (drop i hex_mask))) (\<lambda>n. Inr (py_str n))"
  have "?f 6 = Inl ValueError"
    using assms by (simp add: py_int_empty err_bind_def)
  then have "err_map ?f ([0, 2, 4] @ [6]) = Inl ValueError"
    by (intro err_map_last_fails) (auto dest: hex_slice_error)
  then show ?thesis by (simp add: hex_to_dotted_def err_bind_def)
qed

lemma hex_to_dotted_example: "hex_to_dotted ''ffffff00'' = Inr ''255.255.255.0''"
  by code_simp

text \<open>
  Claim C1. The claim says that \<open>parse_ifconfig\<close> returns a record or \<^verbatim>\<open>None\<close> for
  every input, also when the value after \<^verbatim>\<open>netmask 0x\<close> has fewer than 8 hex digits.
  The pattern accepts one or more hex digits, and the conversion slices the group at
  0, 2, 4 and 6: on a group of at most 6 digits the last slice is empty and
  \<^verbatim>\<open>int('', 16)\<close> raises (lemma \<open>hex_to_dotted_short\<close>). On the text
  \<^verbatim>\<open>en0: flags=8863 mtu 1500\n inet 10.0.0.5 netmask 0xff\<close> the function raises
  \<open>ValueError\<close>.
\<close>

theorem parse_ifconfig_raises_on_short_netmask:
  "parse_ifconfig short_netmask_output ''en0'' = Inl ValueError"
  by code_simp

section \<open>Properties of the DNS server lists\<close>

lemma fromkeys_snoc:
  "fromkeys (xs @ [x]) = (if x \<in> set (fromkeys xs) then fromkeys xs else fromkeys xs @ [x])"
  by (simp add: fromkeys_def)

lemma set_fromkeys: "set (fromkeys xs) = set xs"
proof (induction xs rule: rev_induct)
  case Nil
  show ?case by (simp add: fromkeys_def)
next
  case (snoc x xs)
  then show ?case by (auto simp: fromkeys_snoc)
qed

lemma distinct_fromkeys: "distinct (fromkeys xs)"
proof (induction xs rule: rev_induct)
  case Nil
  show ?case by (simp add: fromkeys_def)
next
  case (snoc x xs)
  then show ?case by (simp add: fromkeys_snoc)
qed

lemma first_occurrences_snoc:
  "first_occurrences (xs @ [x]) = first_occurrences xs @ (if x \<in> set xs then [] else [x])"
proof -
  have f: "filter (\<lambda>k. (xs @ [x]) ! k \<notin> set (take k (xs @ [x]))) [0..<length xs]
      = filter (\<lambda>k. xs ! k \<notin> set (take k xs)) [0..<length xs]"
    by (intro filter_cong) (auto simp: nth_append)
  have m: "map (\<lambda>k. (xs @ [x]) ! k) (filter (\<lambda>k. xs ! k \<notin> set (take k xs)) [0..<length xs])
      = map (\<lambda>k. xs ! k) (filter (\<lambda>k. xs ! k \<notin> set (take k xs)) [0..<length xs])"
    by (intro map_cong) (auto simp: nth_append)
  have "first_occurrences (xs @ [x]) =
      map (\<lambda>k. (xs @ [x]) ! k)
        (filter (\<lambda>k. (xs @ [x]) ! k \<notin> set (take k (xs @ [x]))) ([0..<length xs] @ [length xs]))"
    by (simp add: first_occurrences_def)
  also have "\<dots> = map (\<lambda>k. (xs @ [x]) ! k) (filter (\<lambda>k. xs ! k \<notin> set (take k xs)) [0..<length xs])
      @ (if x \<in> set xs then [] else [x])"
    unfolding filter_append f by simp
  also have "\<dots> = first_occurrences xs @ (if x \<in> set xs then [] else [x])"
    unfolding m by (simp add: first_occurrences_def)
  finally show ?thesis .
qed

lemma fromkeys_first_occurrences: "fromkeys xs = first_occurrences xs"
proof (induction xs rule: rev_induct)
  case Nil
  show ?case by (simp add: fromkeys_def first_occurrences_def)
next
  case (snoc x xs)
  then show ?case using set_fromkeys [of xs] by (simp add: fromkeys_snoc first_occurrences_snoc)
qed

lemma parse_dhcp_info_dns:
  assumes "parse_dhcp_info output = Inr (Some d)"
  shows "dns_servers d =
     (case re_search dns_pattern output of
        None \<Rightarrow> []
      | Some gs \<Rightarrow> map py_strip (split_on CHR '','' (group1 gs)))"
proof (cases "\<not> contains ''op = BOOTREPLY'' output \<and> \<not> contains ''op = BOOTREQUEST'' output")
  case True
  then have "parse_dhcp_info output = Inr None" by (simp add: parse_dhcp_info_def)
  with assms show ?thesis by simp
next
  case c: False
  show ?thesis
  proof (cases "case re_search lease_pattern output of
                  None \<Rightarrow> Inr None
                | Some gs \<Rightarrow> err_bind (py_int 16 (group1 gs)) (\<lambda>n. Inr (Some n))")
    case (Inl e)
    then have "parse_dhcp_info output = Inl e"
      using c by (simp add: parse_dhcp_info_def Let_def err_bind_def)
    with assms show ?thesis by simp
  next
    case (Inr v)
    then have "parse_dhcp_info output =
        Inr (Some \<lparr>is_dhcp = True,
          server = (case re_search server_pattern output of
                           None \<Rightarrow> None | Some gs \<Rightarrow> Some (group1 gs)),
          router = (case re_search router_pattern output of
                           None \<Rightarrow> None
                         | Some gs \<Rightarrow> (case split_on CHR '','' (group1 gs) of
                                        [] \<Rightarrow> None | r # _ \<Rightarrow> Some (py_strip r))),
          dns_servers = (case re_search dns_pattern output of
                        None \<Rightarrow> []
                      | Some gs \<Rightarrow> map py_strip (split_on CHR '','' (group1 gs))),
          domain_name = (case re_search domain_pattern output of
                           None \<Rightarrow> None | Some gs \<Rightarrow> Some (py_strip (group1 gs))),
          lease_time = v,
          subnet_mask = (case re_search mask_pattern output of
                         None \<Rightarrow> None | Some gs \<Rightarrow> Some (group1 gs))\<rparr>)"
      using c by (simp add: parse_dhcp_info_def Let_def err_bind_def)
    with assms show ?thesis by auto
  qed
qed

text \<open>
  Claim C2, as amended. For every input text, the list \<open>parse_dns_servers\<close> returns
  holds each matched address once, at the place of its first match: it is the list of
  first occurrences of the matches. The \<open>dns_servers\<close> field of \<open>parse_dhcp_info\<close> is
  the list of the comma-separated entries of the first
  \<^verbatim>\<open>domain_name_server (ip_mult): {...}\<close> field, each stripped, in the order of the
  text, and an address the field repeats is kept as often as it stands there.
\<close>

theorem dns_lists_first_seen_dhcp_as_listed:
  "distinct (parse_dns_servers output)
   \<and> set (parse_dns_servers output) = set (map group1 (re_findall nameserver_pattern output))
   \<and> parse_dns_servers output = first_occurrences (map group1 (re_findall nameserver_pattern output))
   \<and> (parse_dhcp_info output = Inr (Some d) \<longrightarrow>
        dns_servers d =
          (case re_search dns_pattern output of
             None \<Rightarrow> []
           | Some gs \<Rightarrow> map py_strip (split_on CHR '','' (group1 gs))))"
proof -
  have a: "distinct (parse_dns_servers output)"
    by (simp add: parse_dns_servers_def distinct_fromkeys)
  have b: "set (parse_dns_servers output) = set (map group1 (re_findall nameserver_pattern output))"
    unfolding parse_dns_servers_def by (rule set_fromkeys)
  have c: "parse_dns_servers output = first_occurrences (map group1 (re_findall nameserver_pattern output))"
    unfolding parse_dns_servers_def by (rule fromkeys_first_occurrences)
  show ?thesis
    using a b c parse_dhcp_info_dns [of "output" d] by blast
qed

theorem dns_lists_first_seen_dhcp_as_listed_witness:
  "parse_dns_servers repeated_nameservers = [''8.8.8.8'', ''1.1.1.1'']
   \<and> map group1 (re_findall nameserver_pattern repeated_nameservers)
       = [''8.8.8.8'', ''1.1.1.1'', ''8.8.8.8'']
   \<and> first_occurrences [''8.8.8.8'', ''1.1.1.1'', ''8.8.8.8''] = [''8.8.8.8'', ''1.1.1.1'']
   \<and> parse_dhcp_info repeated_dns_packet =
        Inr (Some \<lparr>is_dhcp = True, server = None, router = None,
                   dns_servers = [''8.8.8.8'', ''1.1.1.1'', ''8.8.8.8''], domain_name = None,
                   lease_time = None, subnet_mask = None\<rparr>)
   \<and> re_search dns_pattern repeated_dns_packet = Some [''8.8.8.8, 1.1.1.1, 8.8.8.8'']"
proof -
  have m: "map group1 (re_findall nameserver_pattern repeated_nameservers)
       = [''8.8.8.8'', ''1.1.1.1'', ''8.8.8.8'']"
    by code_simp
  have f: "first_occurrences [''8.8.8.8'', ''1.1.1.1'', ''8.8.8.8''] = [''8.8.8.8'', ''1.1.1.1'']"
    by code_simp
  have p: "parse_dhcp_info repeated_dns_packet =
        Inr (Some \<lparr>is_dhcp = True, server = None, router = None,
                   dns_servers = [''8.8.8.8'', ''1.1.1.1'', ''8.8.8.8''], domain_name = None,
                   lease_time = None, subnet_mask = None\<rparr>)"
    by code_simp
  have s: "re_search dns_pattern repeated_dns_packet = Some [''8.8.8.8, 1.1.1.1, 8.8.8.8'']"
    by code_simp
  from dns_lists_first_seen_dhcp_as_listed [of repeated_nameservers]
  have "parse_dns_servers repeated_nameservers = [''8.8.8.8'', ''1.1.1.1'']"
    using m f by simp
  then show ?thesis using m f p s by simp
qed

text \<open>
  Claim C2 as stated fails for \<open>parse_dhcp_info\<close>: on a packet whose DNS field is
  \<^verbatim>\<open>{8.8.8.8, 1.1.1.1, 8.8.8.8}\<close> the returned list holds 8.8.8.8 twice.
\<close>

theorem parse_dhcp_info_keeps_repeated_dns:
  "\<exists>d. parse_dhcp_info repeated_dns_packet = Inr (Some d)
       \<and> dns_servers d = [''8.8.8.8'', ''1.1.1.1'', ''8.8.8.8'']
       \<and> \<not> distinct (dns_servers d)"
proof -
  have "parse_dhcp_info repeated_dns_packet =
      Inr (Some \<lparr>is_dhcp = True, server = None, router = None,
                 dns_servers = [''8.8.8.8'', ''1.1.1.1'', ''8.8.8.8''], domain_name = None,
                 lease_time = None, subnet_mask = None\<rparr>)"
    by code_simp
  then show ?thesis by simp
qed

section \<open>Properties of the listings of collectors/offline.py\<close>

lemma match_arp_line:
  "match_at arp_pattern (arp_line @ rest) =
     Some ([arp_line @ rest, drop 1 arp_line @ rest, drop 3 arp_line @ rest,
            drop 11 arp_line @ rest, drop 16 arp_line @ rest, drop 19 arp_line @ rest,
            drop 23 arp_line @ rest, CHR 0x0A # rest], CHR 0x0A # rest)"
  by (simp add: arp_pattern_def arp_line_def lit_def dotted_quad_def re_word_def re_digit_def
      re_hexcolon_def py_isspace_def)

lemma re_scan_skip: "re_scan r n (xs @ rest) = re_scan r (n - length xs) rest" if "length xs \<le> n" "rest \<noteq> []"
  using that
proof (induction xs arbitrary: n)
  case Nil
  then show ?case by simp
next
  case (Cons x xs)
  then obtain m where "n = Suc m" by (cases n) auto
  then show ?case using Cons by simp
qed


lemma re_scan_numeral:
  "re_scan r (numeral k) (c # cs) = re_scan r (pred_numeral k) cs"
  by (simp add: numeral_eq_Suc)

lemma re_scan_arp_line:
  "re_scan arp_pattern 0 (arp_line @ rest) =
     [''?'', ''10.0.0.1'', ''a:b'', ''en0''] # re_scan arp_pattern 0 rest"
proof -
  note m = match_arp_line [of rest, unfolded arp_line_def, simplified]
  have nl: "match_at arp_pattern (CHR 0x0A # rest) = None"
    by (simp add: arp_pattern_def py_isspace_def)
  show ?thesis
    by (simp add: arp_line_def m nl re_scan_numeral)
qed

lemma re_findall_arp_lines:
  "length (re_findall arp_pattern (concat (replicate n arp_line))) = n"
proof (induction n)
  case 0
  show ?case by (simp add: re_findall_def arp_pattern_def)
next
  case (Suc n)
  then show ?case by (simp add: re_findall_def re_scan_arp_line)
qed

text \<open>
  Claim C4, as amended. Whatever the command gives, \<open>get_active_connections\<close> returns
  at most 50 entries; when the command ran, the result is the first 50 of the accepted
  rows and nothing is logged, so the cut is silent. \<open>get_arp_cache\<close> returns one entry
  for every match of its pattern in the output and logs nothing: there is no cap, and
  an output of \<open>n\<close> entry lines gives \<open>n\<close> entries for every \<open>n\<close>.
\<close>

theorem connections_capped_arp_uncapped:
  "length (fst (get_active_connections cmd)) \<le> 50
   \<and> get_active_connections (Inr (out, err, code)) =
       (take 50 (connections_loop (drop 1 (stripped_lines out))), [])
   \<and> get_arp_cache (Inr (out, err, code)) =
       (map (\<lambda>gs. \<lparr>hostname = gs ! 0, ip = gs ! 1, mac = gs ! 2, arp_interface = gs ! 3\<rparr>)
            (re_findall arp_pattern out), [])
   \<and> length (fst (get_arp_cache (Inr (out, err, code)))) = length (re_findall arp_pattern out)
   \<and> length (fst (get_arp_cache (Inr (concat (replicate n arp_line), err, code)))) = n"
proof -
  have "length (fst (get_active_connections cmd)) \<le> 50"
    by (cases cmd) (auto simp: get_active_connections_def Let_def)
  then show ?thesis
    by (simp add: get_active_connections_def get_arp_cache_def Let_def stripped_lines_def
        re_findall_arp_lines)
qed

text \<open>
  Claim C4 as stated fails for \<open>get_arp_cache\<close>: on an output of 51 entry lines it
  returns 51 entries.
\<close>

theorem get_arp_cache_returns_51_entries:
  "length (fst (get_arp_cache (Inr (concat (replicate 51 arp_line), [], 0)))) = 51"
  by (simp add: get_arp_cache_def re_findall_arp_lines)

section \<open>Properties of parse\_hardware\_port\_mapping\<close>

lemma startswith_has:
  assumes "startswith p s" "c \<in> set p"
  shows "dropWhile (\<lambda>x. x \<noteq> c) s \<noteq> []"
proof -
  from assms have "c \<in> set (take (length p) s)" by (simp add: startswith_def)
  then have "c \<in> set s" by (rule in_set_takeD)
  then show ?thesis by (auto simp: dropWhile_eq_Nil_conv)
qed

lemma split_once_index1:
  assumes "dropWhile (\<lambda>x. x \<noteq> c) s \<noteq> []"
  shows "py_index (split_once c s) 1 = Inr (drop 1 (dropWhile (\<lambda>x. x \<noteq> c) s))"
  using assms by (cases "dropWhile (\<lambda>x. x \<noteq> c) s") (simp_all add: split_once_def py_index_def)

lemma port_not_device: "is_port_line l \<Longrightarrow> \<not> is_device_line l"
  by (cases "py_strip l") (auto simp: is_port_line_def is_device_line_def startswith_def)

lemma hw_loop_step:
  "hw_loop (l # rest) m cur =
     (if is_port_line l then hw_loop rest m (Some (label_of l))
      else if is_device_line l \<and> py_truthy cur then hw_loop rest (m(label_of l \<mapsto> the cur)) None
      else hw_loop rest m cur)"
proof -
  have p: "is_port_line l \<Longrightarrow>
      py_index (split_once CHR '':'' (py_strip l)) 1 = Inr (drop 1 (dropWhile (\<lambda>x. x \<noteq> CHR '':'') (py_strip l)))"
    unfolding is_port_line_def
    by (rule split_once_index1, rule startswith_has [where p = "''Hardware Port:''"]) simp_all
  have d: "is_device_line l \<Longrightarrow>
      py_index (split_once CHR '':'' (py_strip l)) 1 = Inr (drop 1 (dropWhile (\<lambda>x. x \<noteq> CHR '':'') (py_strip l)))"
    unfolding is_device_line_def
    by (rule split_once_index1, rule startswith_has [where p = "''Device:''"]) simp_all
  show ?thesis
  proof (cases "is_port_line l")
    case True
    then show ?thesis using p by (simp add: Let_def is_port_line_def label_of_def)
  next
    case np: False
    show ?thesis
    proof (cases "is_device_line l")
      case True
      then show ?thesis using np d
        by (simp add: Let_def is_port_line_def is_device_line_def label_of_def)
    next
      case False
      then show ?thesis using np
        by (simp add: Let_def is_port_line_def is_device_line_def)
    qed
  qed
qed

lemma rev_filter_upt_Suc:
  "rev (filter P [0..<Suc j]) = (if P j then j # rev (filter P [0..<j]) else rev (filter P [0..<j]))"
  by simp

lemma rev_filter_upt_head:
  "rev (filter P [0..<j]) = i # rest \<Longrightarrow> i < j \<and> P i \<and> (\<forall>k. i < k \<and> k < j \<longrightarrow> \<not> P k)"
proof (induction j arbitrary: i rest)
  case 0
  then show ?case by simp
next
  case (Suc j)
  show ?case
  proof (cases "P j")
    case True
    with Suc.prems have "i = j" by simp
    then show ?thesis using True by auto
  next
    case False
    with Suc.prems have "rev (filter P [0..<j]) = i # rest" by simp
    from Suc.IH [OF this] show ?thesis using False
      by (auto simp: less_Suc_eq)
  qed
qed

lemma port_line_for_facts:
  assumes "port_line_for ls j = Some i"
  shows "i < j \<and> is_port_line (ls ! i) \<and> label_of (ls ! i) \<noteq> []
       \<and> (\<forall>k. i < k \<and> k < j \<longrightarrow> \<not> is_port_line (ls ! k) \<and> \<not> is_device_line (ls ! k))"
proof -
  let ?P = "\<lambda>i. is_port_line (ls ! i) \<or> is_device_line (ls ! i)"
  from assms obtain i' rest where r: "rev (filter ?P [0..<j]) = i' # rest"
    by (cases "rev (filter ?P [0..<j])") (simp_all add: port_line_for_def)
  with assms have "i' = i" "is_port_line (ls ! i)" "label_of (ls ! i) \<noteq> []"
    by (auto simp: port_line_for_def split: if_splits)
  with rev_filter_upt_head [OF r] show ?thesis by auto
qed

lemma port_line_serves_one:
  assumes "port_line_for ls j1 = Some i" "port_line_for ls j2 = Some i"
    and "is_device_line (ls ! j1)" "is_device_line (ls ! j2)"
  shows "j1 = j2"
proof (rule ccontr)
  assume ne: "j1 \<noteq> j2"
  note f1 = port_line_for_facts [OF assms(1)] and f2 = port_line_for_facts [OF assms(2)]
  show False
  proof (cases "j1 < j2")
    case True
    with f1 f2 assms(3) show False by blast
  next
    case False
    with ne have "j2 < j1" by simp
    with f1 f2 assms(4) show False by blast
  qed
qed

lemma port_line_for_append:
  "j \<le> length pre \<Longrightarrow> port_line_for (pre @ post) j = port_line_for pre j"
proof -
  assume j: "j \<le> length pre"
  have f: "filter (\<lambda>i. is_port_line ((pre @ post) ! i) \<or> is_device_line ((pre @ post) ! i)) [0..<j]
      = filter (\<lambda>i. is_port_line (pre ! i) \<or> is_device_line (pre ! i)) [0..<j]"
    using j by (intro filter_cong) (auto simp: nth_append)
  have u: "port_line_for (pre @ post) j =
      (case rev (filter (\<lambda>i. is_port_line (pre ! i) \<or> is_device_line (pre ! i)) [0..<j]) of
         [] \<Rightarrow> None
       | i # _ \<Rightarrow> if is_port_line ((pre @ post) ! i) \<and> label_of ((pre @ post) ! i) \<noteq> []
                  then Some i else None)"
    unfolding port_line_for_def f ..
  show ?thesis
  proof (cases "rev (filter (\<lambda>i. is_port_line (pre ! i) \<or> is_device_line (pre ! i)) [0..<j])")
    case Nil
    then show ?thesis unfolding u by (simp add: port_line_for_def)
  next
    case (Cons i rest)
    from rev_filter_upt_head [OF Cons] have "i < length pre" using j by simp
    then have n: "(pre @ post) ! i = pre ! i" by (simp add: nth_append)
    from Cons have "port_line_for pre j =
        (if is_port_line (pre ! i) \<and> label_of (pre ! i) \<noteq> [] then Some i else None)"
      by (simp add: port_line_for_def)
    moreover from Cons u have "port_line_for (pre @ post) j =
        (if is_port_line ((pre @ post) ! i) \<and> label_of ((pre @ post) ! i) \<noteq> [] then Some i else None)"
      by simp
    ultimately show ?thesis using n by simp
  qed
qed

lemma port_line_for_snoc:
  "port_line_for (pre @ [l]) (Suc (length pre)) =
     (if is_port_line l then (if label_of l \<noteq> [] then Some (length pre) else None)
      else if is_device_line l then None
      else port_line_for pre (length pre))"
proof -
  let ?Q = "\<lambda>i. is_port_line ((pre @ [l]) ! i) \<or> is_device_line ((pre @ [l]) ! i)"
  have s: "rev (filter ?Q [0..<Suc (length pre)]) =
      (if is_port_line l \<or> is_device_line l then length pre # rev (filter ?Q [0..<length pre])
       else rev (filter ?Q [0..<length pre]))"
    by simp
  show ?thesis
  proof (cases "is_port_line l \<or> is_device_line l")
    case True
    then show ?thesis
      using s port_not_device [of l] by (auto simp: port_line_for_def)
  next
    case False
    have "port_line_for (pre @ [l]) (Suc (length pre)) = port_line_for (pre @ [l]) (length pre)"
      using False s unfolding port_line_for_def by simp
    also have "\<dots> = port_line_for pre (length pre)" by (simp add: port_line_for_append)
    finally show ?thesis using False by simp
  qed
qed

lemma pending_snoc:
  "pending (pre @ [l]) =
     (if is_port_line l then (if label_of l \<noteq> [] then Some (label_of l) else None)
      else if is_device_line l then None
      else pending pre)"
proof -
  have "\<And>i. port_line_for pre (length pre) = Some i \<Longrightarrow> (pre @ [l]) ! i = pre ! i"
    using port_line_for_facts [of pre "length pre"] by (simp add: nth_append)
  then show ?thesis
    using port_line_for_snoc [of pre l]
    by (cases "port_line_for pre (length pre)") (auto simp: pending_def)
qed

lemma assigned_snoc:
  "assigned (pre @ [l]) =
     assigned pre @ (if is_device_line l
                     then (case pending pre of None \<Rightarrow> [] | Some p \<Rightarrow> [(label_of l, p)])
                     else [])"
proof -
  let ?f = "\<lambda>ls j. if is_device_line (ls ! j)
                       then (case port_line_for ls j of
                               None \<Rightarrow> []
                             | Some i \<Rightarrow> [(label_of (ls ! j), label_of (ls ! i))])
                       else []"
  have old: "map (?f (pre @ [l])) [0..<length pre] = map (?f pre) [0..<length pre]"
  proof (rule map_cong [OF refl])
    fix j assume "j \<in> set [0..<length pre]"
    then have j: "j < length pre" by simp
    then have p: "port_line_for (pre @ [l]) j = port_line_for pre j"
      by (simp add: port_line_for_append)
    have "\<And>i. port_line_for pre j = Some i \<Longrightarrow> (pre @ [l]) ! i = pre ! i"
      using port_line_for_facts [of pre j] j by (simp add: nth_append)
    then show "?f (pre @ [l]) j = ?f pre j"
      using j p by (cases "port_line_for pre j") (simp_all add: nth_append)
  qed
  have p: "port_line_for (pre @ [l]) (length pre) = port_line_for pre (length pre)"
    by (simp add: port_line_for_append)
  have "\<And>i. port_line_for pre (length pre) = Some i \<Longrightarrow> (pre @ [l]) ! i = pre ! i"
    using port_line_for_facts [of pre "length pre"] by (simp add: nth_append)
  then have new: "?f (pre @ [l]) (length pre) =
      (if is_device_line l
       then (case pending pre of None \<Rightarrow> [] | Some p \<Rightarrow> [(label_of l, p)]) else [])"
    using p by (cases "port_line_for pre (length pre)") (simp_all add: pending_def)
  have "assigned (pre @ [l]) = concat (map (?f (pre @ [l])) ([0..<length pre] @ [length pre]))"
    by (simp add: assigned_def)
  also have "\<dots> = concat (map (?f (pre @ [l])) [0..<length pre]) @ ?f (pre @ [l]) (length pre)"
    by simp
  also have "\<dots> = concat (map (?f pre) [0..<length pre])
      @ (if is_device_line l
         then (case pending pre of None \<Rightarrow> [] | Some p \<Rightarrow> [(label_of l, p)]) else [])"
    by (simp only: old new)
  also have "concat (map (?f pre) [0..<length pre]) = assigned pre"
    by (simp add: assigned_def)
  finally show ?thesis .
qed

lemma hw_loop_invariant:
  assumes "(if py_truthy cur then cur else None) = pending pre"
    and "m = map_of (rev (assigned pre))"
  shows "hw_loop ls m cur = Inr (map_of (rev (assigned (pre @ ls))))"
  using assms
proof (induction ls arbitrary: pre m cur)
  case Nil
  then show ?case by simp
next
  case (Cons l ls)
  have app: "pre @ l # ls = (pre @ [l]) @ ls" by simp
  show ?case
  proof (cases "is_port_line l")
    case True
    have "hw_loop ls m (Some (label_of l)) = Inr (map_of (rev (assigned ((pre @ [l]) @ ls))))"
    proof (rule Cons.IH)
      show "(if py_truthy (Some (label_of l)) then Some (label_of l) else None) = pending (pre @ [l])"
        using True by (simp add: pending_snoc py_truthy_def)
      show "m = map_of (rev (assigned (pre @ [l])))"
        using True Cons.prems(2) port_not_device [of l] by (simp add: assigned_snoc)
    qed
    then show ?thesis using True by (simp only: hw_loop_step app simp_thms if_True if_False)
  next
    case np: False
    show ?thesis
    proof (cases "is_device_line l \<and> py_truthy cur")
      case True
      then obtain p where cur: "cur = Some p" "p \<noteq> []" by (cases cur) (auto simp: py_truthy_def)
      with Cons.prems(1) have pend: "pending pre = Some p" by (simp add: py_truthy_def)
      have "hw_loop ls (m(label_of l \<mapsto> the cur)) None = Inr (map_of (rev (assigned ((pre @ [l]) @ ls))))"
      proof (rule Cons.IH)
        show "(if py_truthy None then None else None) = pending (pre @ [l])"
          using True np by (simp add: pending_snoc)
        show "m(label_of l \<mapsto> the cur) = map_of (rev (assigned (pre @ [l])))"
          using True Cons.prems(2) pend cur by (simp add: assigned_snoc)
      qed
      then show ?thesis using True np by (simp only: hw_loop_step app simp_thms if_True if_False)
    next
      case False
      have "hw_loop ls m cur = Inr (map_of (rev (assigned ((pre @ [l]) @ ls))))"
      proof (rule Cons.IH)
        show "(if py_truthy cur then cur else None) = pending (pre @ [l])"
          using False np Cons.prems(1) by (auto simp: pending_snoc)
        show "m = map_of (rev (assigned (pre @ [l])))"
          using False np Cons.prems(1,2) by (auto simp: assigned_snoc)
      qed
      then show ?thesis using False np by (simp only: hw_loop_step app simp_thms if_True if_False)
    qed
  qed
qed

lemma parse_hardware_port_mapping_assigned:
  "parse_hardware_port_mapping output =
     Inr (map_of (rev (assigned (split_on CHR 0x0A (py_strip output)))))"
  unfolding parse_hardware_port_mapping_def
  using hw_loop_invariant [of None "[]" Map.empty "split_on CHR 0x0A (py_strip output)"]
  by (simp add: py_truthy_def pending_def port_line_for_def assigned_def)


lemma concat_map_upt_member:
  "x \<in> set (concat (map f [0..<n])) \<Longrightarrow> \<exists>j<n. x \<in> set (f j)"
  by auto

lemma assigned_member:
  assumes "(d, p) \<in> set (assigned ls)"
  shows "\<exists>j i. j < length ls \<and> is_device_line (ls ! j) \<and> label_of (ls ! j) = d
           \<and> port_line_for ls j = Some i \<and> label_of (ls ! i) = p"
proof -
  from assms [unfolded assigned_def, THEN concat_map_upt_member]
  obtain j where j: "j < length ls"
    and m: "(d, p) \<in> set (if is_device_line (ls ! j)
                       then (case port_line_for ls j of
                               None \<Rightarrow> []
                             | Some i \<Rightarrow> [(label_of (ls ! j), label_of (ls ! i))])
                       else [])"
    by blast
  have dv: "is_device_line (ls ! j)"
  proof (rule ccontr)
    assume "\<not> is_device_line (ls ! j)"
    with m show False by simp
  qed
  show ?thesis
  proof (cases "port_line_for ls j")
    case None
    with m dv show ?thesis by simp
  next
    case (Some i)
    with m dv have "d = label_of (ls ! j)" "p = label_of (ls ! i)" by simp_all
    with j dv Some show ?thesis by blast
  qed
qed

lemma assigned_empty:
  assumes "\<forall>j<length ls. is_device_line (ls ! j) \<longrightarrow> port_line_for ls j = None"
  shows "assigned ls = []"
  using assms by (auto simp: assigned_def)

text \<open>
  Claim C9, as amended. For every input text \<open>parse_hardware_port_mapping\<close> returns (it
  never raises) the mapping in which each device line that has a port line to take, in
  the order of the lines, maps its device name to that port line's label; a later line
  for the same device name replaces an earlier one. (1) The mapping is \<open>assigned\<close> read
  as a dictionary. (2) Every entry comes from a device line and the port line it takes.
  (3) The port line a device line takes is the port line just before it: no other port
  line and no device line lies between the two, and its label is not empty. (4) No port
  line is taken by two device lines. (5) When no device line has a port line to take,
  the mapping is empty.
\<close>

theorem parse_hardware_port_mapping_nearest_port:
  "parse_hardware_port_mapping output = Inr (map_of (rev (assigned (stripped_lines output))))
   \<and> (\<forall>d p. map_of (rev (assigned (stripped_lines output))) d = Some p \<longrightarrow>
        (\<exists>j i. j < length (stripped_lines output)
           \<and> is_device_line (stripped_lines output ! j) \<and> label_of (stripped_lines output ! j) = d
           \<and> port_line_for (stripped_lines output) j = Some i
           \<and> label_of (stripped_lines output ! i) = p))
   \<and> (\<forall>j i. port_line_for (stripped_lines output) j = Some i \<longrightarrow>
          i < j \<and> is_port_line (stripped_lines output ! i) \<and> label_of (stripped_lines output ! i) \<noteq> []
          \<and> (\<forall>k. i < k \<and> k < j \<longrightarrow>
                 \<not> is_port_line (stripped_lines output ! k)
                 \<and> \<not> is_device_line (stripped_lines output ! k)))
   \<and> (\<forall>j1 j2 i. is_device_line (stripped_lines output ! j1)
          \<and> is_device_line (stripped_lines output ! j2)
          \<and> port_line_for (stripped_lines output) j1 = Some i
          \<and> port_line_for (stripped_lines output) j2 = Some i \<longrightarrow> j1 = j2)
   \<and> ((\<forall>j<length (stripped_lines output).
          is_device_line (stripped_lines output ! j) \<longrightarrow> port_line_for (stripped_lines output) j = None)
        \<longrightarrow> parse_hardware_port_mapping output = Inr Map.empty)"
proof -
  let ?ls = "stripped_lines output"
  have 1: "parse_hardware_port_mapping output = Inr (map_of (rev (assigned ?ls)))"
    by (simp add: parse_hardware_port_mapping_assigned stripped_lines_def)
  have 2: "\<exists>j i. j < length ?ls \<and> is_device_line (?ls ! j) \<and> label_of (?ls ! j) = d
           \<and> port_line_for ?ls j = Some i \<and> label_of (?ls ! i) = p"
    if "map_of (rev (assigned ?ls)) d = Some p" for d p
  proof -
    from that have "(d, p) \<in> set (rev (assigned ?ls))" by (rule map_of_SomeD)
    then have "(d, p) \<in> set (assigned ?ls)" by simp
    then show ?thesis by (rule assigned_member)
  qed
  have 5: "parse_hardware_port_mapping output = Inr Map.empty"
    if "\<forall>j<length ?ls. is_device_line (?ls ! j) \<longrightarrow> port_line_for ?ls j = None"
    using 1 assigned_empty [OF that] by simp
  have 3: "i < j \<and> is_port_line (?ls ! i) \<and> label_of (?ls ! i) \<noteq> []
          \<and> (\<forall>k. i < k \<and> k < j \<longrightarrow> \<not> is_port_line (?ls ! k) \<and> \<not> is_device_line (?ls ! k))"
    if "port_line_for ?ls j = Some i" for j i
    using that by (rule port_line_for_facts)
  have 4: "j1 = j2"
    if "is_device_line (?ls ! j1) \<and> is_device_line (?ls ! j2)
          \<and> port_line_for ?ls j1 = Some i \<and> port_line_for ?ls j2 = Some i" for j1 j2 i
    using that port_line_serves_one [of ?ls j1 i j2] by blast
  have c2: "\<forall>d p. map_of (rev (assigned ?ls)) d = Some p \<longrightarrow>
        (\<exists>j i. j < length ?ls \<and> is_device_line (?ls ! j) \<and> label_of (?ls ! j) = d
           \<and> port_line_for ?ls j = Some i \<and> label_of (?ls ! i) = p)"
    using 2 by blast
  have c3: "\<forall>j i. port_line_for ?ls j = Some i \<longrightarrow>
          i < j \<and> is_port_line (?ls ! i) \<and> label_of (?ls ! i) \<noteq> []
          \<and> (\<forall>k. i < k \<and> k < j \<longrightarrow> \<not> is_port_line (?ls ! k) \<and> \<not> is_device_line (?ls ! k))"
    using 3 by blast
  have c4: "\<forall>j1 j2 i. is_device_line (?ls ! j1) \<and> is_device_line (?ls ! j2)
          \<and> port_line_for ?ls j1 = Some i \<and> port_line_for ?ls j2 = Some i \<longrightarrow> j1 = j2"
    using 4 by blast
  have c5: "(\<forall>j<length ?ls. is_device_line (?ls ! j) \<longrightarrow> port_line_for ?ls j = None)
        \<longrightarrow> parse_hardware_port_mapping output = Inr Map.empty"
    using 5 by blast
  show ?thesis
    by (rule conjI [OF 1 conjI [OF c2 conjI [OF c3 conjI [OF c4 c5]]]])
qed

theorem parse_hardware_port_mapping_nearest_port_witness:
  "(\<exists>m. parse_hardware_port_mapping example_ports_output = Inr m
        \<and> m ''en0'' = Some ''Wi-Fi'' \<and> m ''en1'' = None \<and> m ''en2'' = None
        \<and> m ''bridge0'' = Some ''Bridge'')
   \<and> port_line_for (stripped_lines example_ports_output) 1 = Some 0
   \<and> port_line_for (stripped_lines example_ports_output) 9 = Some 8
   \<and> is_device_line (stripped_lines example_ports_output ! 1)
   \<and> is_port_line (stripped_lines example_ports_output ! 0)
   \<and> label_of (stripped_lines example_ports_output ! 0) = ''Wi-Fi''
   \<and> length (stripped_lines ''Device: en0'') = 1
   \<and> is_device_line (stripped_lines ''Device: en0'' ! 0)
   \<and> port_line_for (stripped_lines ''Device: en0'') 0 = None
   \<and> parse_hardware_port_mapping ''Device: en0'' = Inr Map.empty"
proof -
  have a: "assigned (stripped_lines example_ports_output) = [(''en0'', ''Wi-Fi''), (''bridge0'', ''Bridge'')]"
    by code_simp
  have p: "port_line_for (stripped_lines example_ports_output) 1 = Some 0"
    "port_line_for (stripped_lines example_ports_output) 9 = Some 8"
    "is_device_line (stripped_lines example_ports_output ! 1)"
    by code_simp+
  have l: "stripped_lines ''Device: en0'' = [''Device: en0'']" by code_simp
  have n: "port_line_for [''Device: en0''] 0 = None" "is_device_line ''Device: en0''"
    by code_simp+
  note t = parse_hardware_port_mapping_nearest_port [of example_ports_output]
  note u = parse_hardware_port_mapping_nearest_port [of "''Device: en0''"]
  have m: "\<exists>m. parse_hardware_port_mapping example_ports_output = Inr m
        \<and> m ''en0'' = Some ''Wi-Fi'' \<and> m ''en1'' = None \<and> m ''en2'' = None
        \<and> m ''bridge0'' = Some ''Bridge''"
    using t a by simp
  have f: "is_port_line (stripped_lines example_ports_output ! 0)"
    "label_of (stripped_lines example_ports_output ! 0) = ''Wi-Fi''"
    by code_simp+
  have h: "\<forall>j<length (stripped_lines ''Device: en0'').
          is_device_line (stripped_lines ''Device: en0'' ! j)
          \<longrightarrow> port_line_for (stripped_lines ''Device: en0'') j = None"
    using l n by simp
  have e: "parse_hardware_port_mapping ''Device: en0'' = Inr Map.empty"
    using u [THEN conjunct2, THEN conjunct2, THEN conjunct2, THEN conjunct2] h by (rule mp)
  show ?thesis using m p f e l n by simp
qed

text \<open>
  Claim C9 as stated fails. On \<^verbatim>\<open>Hardware Port:\<close> followed by \<^verbatim>\<open>Device: en1\<close> the
  claim maps en1 to the label of the port line, the empty string; the code returns the
  empty mapping. On the port lines A and B followed by the device lines d1 and d2 the
  claim maps d2 to A, the nearest port line no device line has consumed; the code maps
  d1 to B and leaves d2 out.
\<close>

theorem parse_hardware_port_mapping_leaves_ports_unused:
  "stated_assigned (stripped_lines empty_label_output) = [(''en1'', [])]
   \<and> parse_hardware_port_mapping empty_label_output = Inr Map.empty
   \<and> stated_assigned (stripped_lines two_ports_output) = [(''d1'', ''B''), (''d2'', ''A'')]
   \<and> (\<exists>m. parse_hardware_port_mapping two_ports_output = Inr m
          \<and> m ''d1'' = Some ''B'' \<and> m ''d2'' = None)"
proof -
  have s1: "stated_assigned (stripped_lines empty_label_output) = [(''en1'', [])]"
    by code_simp
  have s2: "stated_assigned (stripped_lines two_ports_output) = [(''d1'', ''B''), (''d2'', ''A'')]"
    by code_simp
  have a1: "assigned (split_on CHR 0x0A (py_strip empty_label_output)) = []"
    by code_simp
  have a2: "assigned (split_on CHR 0x0A (py_strip two_ports_output)) = [(''d1'', ''B'')]"
    by code_simp
  have p1: "parse_hardware_port_mapping empty_label_output = Inr Map.empty"
    by (simp add: parse_hardware_port_mapping_assigned a1)
  have p2: "\<exists>m. parse_hardware_port_mapping two_ports_output = Inr m
          \<and> m ''d1'' = Some ''B'' \<and> m ''d2'' = None"
    by (simp add: parse_hardware_port_mapping_assigned a2)
  show ?thesis using s1 s2 p1 p2 by blast
qed

end
